theory Spec2Isabelle
  imports Main
begin

section \<open>Python values, exceptions and outcomes\<close>

text \<open>
  The values that \<^verbatim>\<open>response.json()\<close> hands to the program. An object is the list of
  its items in insertion order, the list standing for the parsed \<^verbatim>\<open>dict\<close> (one
  item per key). A string is the list of the bytes of its UTF-8 encoding, so equal
  strings are equal lists. JSON numbers with a fraction (Python floats) and strings
  without a UTF-8 encoding (lone surrogates) are left out of this development.
\<close>

datatype json =
    JNull
  | JBool bool
  | JInt int
  | JStr string
  | JList "json list"
  | JObj "(string \<times> json) list"

text \<open>
  Exception classes. \<open>RequestException\<close> stands for
  \<^verbatim>\<open>requests.exceptions.RequestException\<close> and all of its subclasses (connection
  error, timeout, the \<^verbatim>\<open>HTTPError\<close> of \<^verbatim>\<open>raise_for_status\<close>);
  \<open>Sqlite3Error\<close> for \<^verbatim>\<open>sqlite3.Error\<close> and its subclasses.
\<close>

datatype exn =
    RequestException
  | KeyError
  | TypeError
  | IndexError
  | ValueError
  | OverflowError
  | Sqlite3Error

text \<open>What a call does: it returns a value or raises.\<close>

datatype 'a outcome =
    Return 'a
  | Raise exn

text \<open>
  An outbound HTTP exchange, \<^verbatim>\<open>requests.get(...)\<close>, \<^verbatim>\<open>raise_for_status()\<close> and
  \<^verbatim>\<open>response.json()\<close> taken together: one of the three raises, or the decoded
  body is there.
\<close>

datatype response =
    Raises exn
  | Body json

datatype level = WARNING | ERROR

text \<open>Truth value testing, as \<^verbatim>\<open>not x\<close> and \<^verbatim>\<open>if x\<close> do it.\<close>

fun truthy :: "json \<Rightarrow> bool" where
  "truthy JNull = False"
| "truthy (JBool b) = b"
| "truthy (JInt n) = (n \<noteq> 0)"
| "truthy (JStr s) = (s \<noteq> [])"
| "truthy (JList xs) = (xs \<noteq> [])"
| "truthy (JObj kvs) = (kvs \<noteq> [])"

text \<open>\<^verbatim>\<open>x[0]\<close>: the first element of a list or string; a dict from JSON has string keys
  only, so the key \<open>0\<close> is missing; \<^verbatim>\<open>None\<close>, booleans and integers are not
  subscriptable.\<close>

fun subscript_0 :: "json \<Rightarrow> exn + json" where
  "subscript_0 (JList []) = Inl IndexError"
| "subscript_0 (JList (x # xs)) = Inr x"
| "subscript_0 (JStr []) = Inl IndexError"
| "subscript_0 (JStr (c # cs)) = Inr (JStr [c])"
| "subscript_0 (JObj kvs) = Inl KeyError"
| "subscript_0 JNull = Inl TypeError"
| "subscript_0 (JBool b) = Inl TypeError"
| "subscript_0 (JInt n) = Inl TypeError"

text \<open>\<^verbatim>\<open>x['key']\<close>: a dict lookup; lists and strings take integer indices only, the
  other values are not subscriptable.\<close>

fun subscript_key :: "json \<Rightarrow> string \<Rightarrow> exn + json" where
  "subscript_key (JObj kvs) k = (case map_of kvs k of None \<Rightarrow> Inl KeyError | Some v \<Rightarrow> Inr v)"
| "subscript_key (JList xs) k = Inl TypeError"
| "subscript_key (JStr s) k = Inl TypeError"
| "subscript_key JNull k = Inl TypeError"
| "subscript_key (JBool b) k = Inl TypeError"
| "subscript_key (JInt n) k = Inl TypeError"

text \<open>\<^verbatim>\<open>for item in x\<close>: a list yields its elements, a dict its keys, a string its
  characters (here one string per byte; the program fails on the first of them
  whatever it is); the other values are not iterable.\<close>

fun py_iter :: "json \<Rightarrow> exn + json list" where
  "py_iter (JList xs) = Inr xs"
| "py_iter (JObj kvs) = Inr (map (\<lambda>kv. JStr (fst kv)) kvs)"
| "py_iter (JStr s) = Inr (map (\<lambda>c. JStr [c]) s)"
| "py_iter JNull = Inl TypeError"
| "py_iter (JBool b) = Inl TypeError"
| "py_iter (JInt n) = Inl TypeError"

section \<open>SQLite values\<close>

text \<open>What a column of the table holds: \<^verbatim>\<open>NULL\<close>, an integer or a text.\<close>

datatype sql = SqlNull | SqlInt int | SqlText string

text \<open>
  Binding a Python value to a \<^verbatim>\<open>?\<close> of a statement: \<^verbatim>\<open>None\<close> is \<^verbatim>\<open>NULL\<close>, a
  \<^verbatim>\<open>bool\<close> is the integer 1 or 0, an \<^verbatim>\<open>int\<close> must fit in 64 bits with sign
  (\<^verbatim>\<open>OverflowError\<close> otherwise), a \<^verbatim>\<open>str\<close> is a text; lists and dicts are refused
  with an exception of \<^verbatim>\<open>sqlite3\<close>.
\<close>

fun sqlite_bind :: "json \<Rightarrow> exn + sql" where
  "sqlite_bind JNull = Inr SqlNull"
| "sqlite_bind (JBool b) = Inr (SqlInt (if b then 1 else 0))"
| "sqlite_bind (JInt n) =
     (if - 9223372036854775808 \<le> n \<and> n \<le> 9223372036854775807 then Inr (SqlInt n)
      else Inl OverflowError)"
| "sqlite_bind (JStr s) = Inr (SqlText s)"
| "sqlite_bind (JList xs) = Inl Sqlite3Error"
| "sqlite_bind (JObj kvs) = Inl Sqlite3Error"

text \<open>An integer written in decimal, as SQLite turns it into text.\<close>

function nat_text :: "nat \<Rightarrow> string" where
  "nat_text n =
     (if n < 10 then [''0123456789'' ! n]
      else nat_text (n div 10) @ [''0123456789'' ! (n mod 10)])"
  by pat_completeness auto
termination
  by (relation "measure (\<lambda>n. n)") auto

declare nat_text.simps [simp del]

definition int_text :: "int \<Rightarrow> string" where
  "int_text i = (if i < 0 then CHR ''-'' # nat_text (nat (- i)) else nat_text (nat i))"

text \<open>
  The column \<^verbatim>\<open>series_name TEXT\<close>: an integer stored in it, or compared with it,
  becomes its decimal text; \<^verbatim>\<open>NULL\<close> stays \<^verbatim>\<open>NULL\<close>.
\<close>

fun text_affinity :: "sql \<Rightarrow> string option" where
  "text_affinity SqlNull = None"
| "text_affinity (SqlInt n) = Some (int_text n)"
| "text_affinity (SqlText s) = Some s"

section \<open>The world of one request\<close>

text \<open>A row of the table \<^verbatim>\<open>tvdb_cache\<close> that \<^verbatim>\<open>init_db\<close> creates; \<open>None\<close> is a
  \<^verbatim>\<open>NULL\<close> name. The column \<^verbatim>\<open>tvdb_id\<close> keeps a text as it was bound; what the
  integer affinity of the column makes of a text is accounted for where the column is
  read. The column \<^verbatim>\<open>created_at\<close> holds \<^verbatim>\<open>datetime.now().isoformat()\<close>, which
  \<^verbatim>\<open>datetime.fromisoformat\<close> reads back exactly; a \<^verbatim>\<open>datetime\<close> is the number of
  microseconds since \<^verbatim>\<open>datetime.min\<close>.\<close>

record row =
  row_id :: nat
  series_name :: "string option"
  tvdb_id :: sql
  created_at :: int

text \<open>
  What the program reads and cannot change: \<^verbatim>\<open>CONFIG['cache']['expire_days']\<close>,
  whether the n-th \<^verbatim>\<open>sqlite3.connect\<close> reaches the database file, the readings of
  the clock (the n-th call of \<^verbatim>\<open>datetime.now()\<close> gets \<open>clock n\<close>), the answers of
  the Sonarr lookup API (to the n-th request, for a search term), the answer of the
  Bangumi collection API, and the result of \<^verbatim>\<open>int(...)\<close> on what a read gives for a
  \<^verbatim>\<open>tvdb_id\<close> that was bound as text (SQLite stores a text that looks like a number
  as that number).
\<close>

record env =
  expire_days :: int
  db_accessible :: "nat \<Rightarrow> bool"
  clock :: "nat \<Rightarrow> int"
  sonarr_api :: "nat \<Rightarrow> json \<Rightarrow> response"
  bangumi_api :: response
  int_of_stored_text :: "string \<Rightarrow> exn + int"

text \<open>
  What the program changes: the rows of the table, the highest row id handed out so
  far (\<^verbatim>\<open>AUTOINCREMENT\<close>), the number of connections opened, the number of clock
  readings taken, the search terms sent to Sonarr so far, and the levels of the log
  records written.
\<close>

record state =
  tvdb_cache :: "row list"
  sqlite_sequence :: nat
  connects :: nat
  clock_reads :: nat
  sonarr_calls :: "json list"
  app_log :: "level list"

text \<open>A \<^verbatim>\<open>{"title": ..., "tvdbId": ...}\<close> dict of the result list; both values are
  what the program put there, of whatever type.\<close>

record item =
  title :: json
  tvdbId :: json

text \<open>What \<^verbatim>\<open>jsonify\<close> builds: a response with status 200 and the list as body.\<close>

record http_response =
  status :: nat
  body :: "item list"

text \<open>\<^verbatim>\<open>init_db\<close> on a fresh database file: the table exists and is empty.\<close>

definition init_db :: state where
  "init_db = \<lparr>tvdb_cache = [], sqlite_sequence = 0, connects = 0, clock_reads = 0,
     sonarr_calls = [], app_log = []\<rparr>"

text \<open>\<^verbatim>\<open>sqlite3.connect(CONFIG['database']['path'])\<close>: whether it succeeded.\<close>

definition sqlite3_connect :: "env \<Rightarrow> state \<Rightarrow> bool \<times> state" where
  "sqlite3_connect e s = (db_accessible e (connects s), s\<lparr>connects := Suc (connects s)\<rparr>)"

text \<open>\<^verbatim>\<open>timedelta(days=d)\<close> in microseconds; more than 999999999 days either way is an
  \<^verbatim>\<open>OverflowError\<close>.\<close>

definition timedelta_days :: "int \<Rightarrow> exn + int" where
  "timedelta_days d =
     (if - 999999999 \<le> d \<and> d \<le> 999999999 then Inr (d * 86400000000) else Inl OverflowError)"

text \<open>\<^verbatim>\<open>datetime.max\<close>, the last microsecond of the year 9999.\<close>

definition datetime_max :: int where
  "datetime_max = 315537897599999999"

text \<open>\<^verbatim>\<open>t - d\<close> for a \<^verbatim>\<open>datetime\<close> and a \<^verbatim>\<open>timedelta\<close>: a result outside the years 1
  to 9999 is an \<^verbatim>\<open>OverflowError\<close>.\<close>

definition datetime_sub :: "int \<Rightarrow> int \<Rightarrow> exn + int" where
  "datetime_sub t d =
     (if 0 \<le> t - d \<and> t - d \<le> datetime_max then Inr (t - d) else Inl OverflowError)"

definition datetime_now :: "env \<Rightarrow> state \<Rightarrow> int \<times> state" where
  "datetime_now e s = (clock e (clock_reads s), s\<lparr>clock_reads := Suc (clock_reads s)\<rparr>)"

definition logger :: "level \<Rightarrow> state \<Rightarrow> state" where
  "logger l s = s\<lparr>app_log := app_log s @ [l]\<rparr>"

section \<open>TVDBCache\<close>

text \<open>\<^verbatim>\<open>SELECT tvdb_id, created_at FROM tvdb_cache WHERE series_name = ?\<close> followed by
  \<^verbatim>\<open>fetchone()\<close>: the first row with that name (text compared byte by byte), if
  any; nothing equals \<^verbatim>\<open>NULL\<close>.\<close>

fun fetchone :: "string option \<Rightarrow> row list \<Rightarrow> row option" where
  "fetchone None rows = None"
| "fetchone (Some name) rows = find (\<lambda>r. series_name r = Some name) rows"

text \<open>\<^verbatim>\<open>int(result[0])\<close> on the value read from the column \<^verbatim>\<open>tvdb_id\<close>.\<close>

fun py_int :: "env \<Rightarrow> sql \<Rightarrow> exn + int" where
  "py_int e SqlNull = Inl TypeError"
| "py_int e (SqlInt n) = Inr n"
| "py_int e (SqlText s) = int_of_stored_text e s"

text \<open>\<^verbatim>\<open>TVDBCache.get\<close>. The clock is read only when a row was found (\<^verbatim>\<open>and\<close>
  evaluates its right operand only then), and \<^verbatim>\<open>datetime.now()\<close> is called before
  \<^verbatim>\<open>timedelta(...)\<close>.\<close>

definition TVDBCache_get :: "env \<Rightarrow> json \<Rightarrow> state \<Rightarrow> int option outcome \<times> state" where
  "TVDBCache_get e name s =
     (let (ok, s0) = sqlite3_connect e s
      in if \<not> ok then (Raise Sqlite3Error, s0)
         else case sqlite_bind name of
                Inl x \<Rightarrow> (Raise x, s0)
              | Inr v \<Rightarrow>
                  (case fetchone (text_affinity v) (tvdb_cache s0) of
                     None \<Rightarrow> (Return None, s0)
                   | Some r \<Rightarrow>
                       (let (now, s1) = datetime_now e s0
                        in case timedelta_days (expire_days e) of
                             Inl x \<Rightarrow> (Raise x, s1)
                           | Inr d \<Rightarrow>
                               (case datetime_sub now d of
                                  Inl x \<Rightarrow> (Raise x, s1)
                                | Inr start \<Rightarrow>
                                    if created_at r > start
                                    then (case py_int e (tvdb_id r) of
                                            Inl x \<Rightarrow> (Raise x, s1)
                                          | Inr i \<Rightarrow> (Return (Some i), s1))
                                    else (Return None, s1)))))"

text \<open>\<^verbatim>\<open>REPLACE INTO tvdb_cache (series_name, tvdb_id, created_at) VALUES (?, ?, ?)\<close>:
  the rows that clash with the new one on the \<^verbatim>\<open>UNIQUE\<close> column are deleted (a
  \<^verbatim>\<open>NULL\<close> name clashes with nothing), then the new row is inserted under a fresh
  id.\<close>

definition replace_into :: "string option \<Rightarrow> sql \<Rightarrow> int \<Rightarrow> state \<Rightarrow> state" where
  "replace_into name v t s =
     s\<lparr>tvdb_cache :=
          (case name of
             None \<Rightarrow> tvdb_cache s
           | Some k \<Rightarrow> filter (\<lambda>r. series_name r \<noteq> Some k) (tvdb_cache s)) @
          [\<lparr>row_id = Suc (sqlite_sequence s), series_name = name, tvdb_id = v, created_at = t\<rparr>],
       sqlite_sequence := Suc (sqlite_sequence s)\<rparr>"

text \<open>\<^verbatim>\<open>TVDBCache.set\<close>: the connection, then the argument tuple with its clock
  reading, then the statement, whose parameters are bound in order.\<close>

definition TVDBCache_set :: "env \<Rightarrow> json \<Rightarrow> json \<Rightarrow> state \<Rightarrow> unit outcome \<times> state" where
  "TVDBCache_set e name v s =
     (let (ok, s0) = sqlite3_connect e s
      in if \<not> ok then (Raise Sqlite3Error, s0)
         else (let (now, s1) = datetime_now e s0
               in case sqlite_bind name of
                    Inl x \<Rightarrow> (Raise x, s1)
                  | Inr k \<Rightarrow>
                      (case sqlite_bind v of
                         Inl x \<Rightarrow> (Raise x, s1)
                       | Inr c \<Rightarrow> (Return (), replace_into (text_affinity k) c now s1))))"

section \<open>lookup\_series\_by\_name\<close>

text \<open>The request to \<^verbatim>\<open>/api/v3/series/lookup\<close> with the term; the call is recorded.\<close>

definition sonarr_request :: "env \<Rightarrow> json \<Rightarrow> state \<Rightarrow> response \<times> state" where
  "sonarr_request e name s =
     (sonarr_api e (length (sonarr_calls s)) name, s\<lparr>sonarr_calls := sonarr_calls s @ [name]\<rparr>)"

text \<open>\<^verbatim>\<open>except requests.exceptions.RequestException\<close>: this class is logged and
  turned into 0, any other exception goes on to the caller.\<close>

definition except_RequestException :: "exn \<Rightarrow> state \<Rightarrow> json outcome \<times> state" where
  "except_RequestException x s =
     (if x = RequestException then (Return (JInt 0), logger ERROR s) else (Raise x, s))"

text \<open>The \<^verbatim>\<open>try\<close> block, entered when the cache gave nothing to return.\<close>

definition lookup_request :: "env \<Rightarrow> json \<Rightarrow> state \<Rightarrow> json outcome \<times> state" where
  "lookup_request e name s =
     (let (resp, s1) = sonarr_request e name s
      in case resp of
           Raises x \<Rightarrow> except_RequestException x s1
         | Body results \<Rightarrow>
             if \<not> truthy results then (Return (JInt 0), logger WARNING s1)
             else (case subscript_0 results of
                     Inl x \<Rightarrow> except_RequestException x s1
                   | Inr first \<Rightarrow>
                       (case subscript_key first ''tvdbId'' of
                          Inl x \<Rightarrow> except_RequestException x s1
                        | Inr tvdb \<Rightarrow>
                            (case TVDBCache_set e name tvdb s1 of
                               (Return u, s2) \<Rightarrow> (Return tvdb, s2)
                             | (Raise x, s2) \<Rightarrow> except_RequestException x s2))))"

text \<open>\<^verbatim>\<open>lookup_series_by_name\<close>. The test \<^verbatim>\<open>if cached_id := TVDBCache.get(...)\<close>
  is a truth value test of an \<^verbatim>\<open>Optional[int]\<close>: \<^verbatim>\<open>None\<close> and \<open>0\<close> both fail
  it.\<close>

definition lookup_series_by_name :: "env \<Rightarrow> json \<Rightarrow> state \<Rightarrow> json outcome \<times> state" where
  "lookup_series_by_name e name s =
     (case TVDBCache_get e name s of
        (Raise x, s0) \<Rightarrow> (Raise x, s0)
      | (Return None, s0) \<Rightarrow> lookup_request e name s0
      | (Return (Some cached_id), s0) \<Rightarrow>
          if cached_id \<noteq> 0 then (Return (JInt cached_id), s0) else lookup_request e name s0)"

section \<open>get\_bgm\_collection and the route\<close>

text \<open>The list comprehension: for each item in turn, \<^verbatim>\<open>item['name']\<close>, then the
  lookup of that name; the first exception ends it.\<close>

fun comprehension :: "env \<Rightarrow> json list \<Rightarrow> state \<Rightarrow> item list outcome \<times> state" where
  "comprehension e [] s = (Return [], s)"
| "comprehension e (it # rest) s =
     (case subscript_key it ''name'' of
        Inl x \<Rightarrow> (Raise x, s)
      | Inr name \<Rightarrow>
          (case lookup_series_by_name e name s of
             (Raise x, s1) \<Rightarrow> (Raise x, s1)
           | (Return i, s1) \<Rightarrow>
               (case comprehension e rest s1 of
                  (Return its, s2) \<Rightarrow> (Return (\<lparr>title = name, tvdbId = i\<rparr> # its), s2)
                | (Raise x, s2) \<Rightarrow> (Raise x, s2))))"

text \<open>\<^verbatim>\<open>get_bgm_collection\<close>: \<^verbatim>\<open>except Exception\<close> catches every exception raised
  in the \<^verbatim>\<open>try\<close> block, logs it and gives the empty list.\<close>

definition get_bgm_collection :: "env \<Rightarrow> state \<Rightarrow> item list outcome \<times> state" where
  "get_bgm_collection e s =
     (case bangumi_api e of
        Raises x \<Rightarrow> (Return [], logger ERROR s)
      | Body payload \<Rightarrow>
          (case py_iter payload of
             Inl x \<Rightarrow> (Return [], logger ERROR s)
           | Inr its \<Rightarrow>
               (case comprehension e its s of
                  (Return res, s1) \<Rightarrow> (Return res, s1)
                | (Raise x, s1) \<Rightarrow> (Return [], logger ERROR s1))))"

definition jsonify :: "item list \<Rightarrow> http_response" where
  "jsonify its = \<lparr>status = 200, body = its\<rparr>"

text \<open>\<^verbatim>\<open>get_list\<close>, the handler of \<^verbatim>\<open>GET /watching-list\<close>.\<close>

definition get_list :: "env \<Rightarrow> state \<Rightarrow> http_response outcome \<times> state" where
  "get_list e s =
     (case get_bgm_collection e s of
        (Return its, s1) \<Rightarrow> (Return (jsonify its), s1)
      | (Raise x, s1) \<Rightarrow> (Raise x, s1))"

section \<open>Operation sequences and example worlds\<close>

text \<open>A sequence of cache operations, each run in the environment of its moment.\<close>

datatype cache_op = Get json | Set json json

fun run_op :: "env \<Rightarrow> cache_op \<Rightarrow> state \<Rightarrow> state" where
  "run_op e (Get name) s = snd (TVDBCache_get e name s)"
| "run_op e (Set name v) s = snd (TVDBCache_set e name v s)"

fun run_ops :: "(env \<times> cache_op) list \<Rightarrow> state \<Rightarrow> state" where
  "run_ops [] s = s"
| "run_ops ((e, c) # ops) s = run_ops ops (run_op e c s)"

text \<open>The \<^verbatim>\<open>UNIQUE\<close> constraint of the column \<^verbatim>\<open>series_name\<close>: no two rows with
  the same name, \<^verbatim>\<open>NULL\<close> names apart.\<close>

definition unique_series_name :: "row list \<Rightarrow> bool" where
  "unique_series_name rows = distinct (filter (\<lambda>k. k \<noteq> None) (map series_name rows))"

text \<open>Concrete worlds for the examples: a window of seven days, a database that every
  connection reaches, a clock in the year 2025 that advances one microsecond per
  reading, and a few answers of the two services.\<close>

definition example_env :: "(nat \<Rightarrow> json \<Rightarrow> response) \<Rightarrow> response \<Rightarrow> env" where
  "example_env api bgm =
     \<lparr>expire_days = 7, db_accessible = (\<lambda>n. True), clock = (\<lambda>n. 63900000000000000 + int n),
      sonarr_api = api, bangumi_api = bgm, int_of_stored_text = (\<lambda>s. Inl ValueError)\<rparr>"

definition example_state :: state where
  "example_state =
     \<lparr>tvdb_cache = [\<lparr>row_id = 1, series_name = Some ''Example'', tvdb_id = SqlInt 42,
        created_at = 63900000000000000\<rparr>],
      sqlite_sequence = 1, connects = 2, clock_reads = 1, sonarr_calls = [JStr ''Example''],
      app_log = []\<rparr>"

definition api_down :: "nat \<Rightarrow> json \<Rightarrow> response" where
  "api_down n q = Raises RequestException"

definition api_empty :: "nat \<Rightarrow> json \<Rightarrow> response" where
  "api_empty n q = Body (JList [])"

definition api_two_results :: "nat \<Rightarrow> json \<Rightarrow> response" where
  "api_two_results n q =
     Body (JList [JObj [(''title'', q), (''tvdbId'', JInt 42)], JObj [(''tvdbId'', JInt 99)]])"

definition api_zero_then_seven :: "nat \<Rightarrow> json \<Rightarrow> response" where
  "api_zero_then_seven n q = Body (JList [JObj [(''tvdbId'', JInt (if n = 0 then 0 else 7))]])"

definition bgm_A_B :: response where
  "bgm_A_B = Body (JList [JObj [(''name'', JStr ''A'')], JObj [(''name'', JStr ''B'')]])"

definition api_A_only :: "nat \<Rightarrow> json \<Rightarrow> response" where
  "api_A_only n q =
     (if q = JStr ''A'' then Body (JList [JObj [(''tvdbId'', JInt 1)]]) else Body (JList []))"

definition api_no_id :: "nat \<Rightarrow> json \<Rightarrow> response" where
  "api_no_id n q = Body (JList [JObj [(''title'', q)]])"

definition api_error_object :: "nat \<Rightarrow> json \<Rightarrow> response" where
  "api_error_object n q = Body (JObj [(''error'', JStr ''Unauthorized'')])"

definition api_empty_object_for_A :: "nat \<Rightarrow> json \<Rightarrow> response" where
  "api_empty_object_for_A n q =
     (if q = JStr ''A'' then Body (JObj []) else Body (JList [JObj [(''tvdbId'', JInt 5)]]))"

definition bgm_A_then_5 :: response where
  "bgm_A_then_5 = Body (JList [JObj [(''name'', JStr ''A'')], JInt 5])"

definition bgm_null_name :: response where
  "bgm_null_name = Body (JList [JObj [(''name'', JNull)]])"

lemmas example_defs = example_env_def example_state_def api_down_def api_empty_def
  api_two_results_def api_zero_then_seven_def init_db_def datetime_max_def
  bgm_A_B_def api_A_only_def api_no_id_def api_error_object_def api_empty_object_for_A_def
  bgm_A_then_5_def bgm_null_name_def

lemmas program_defs = TVDBCache_get_def TVDBCache_set_def sqlite3_connect_def datetime_now_def
  timedelta_days_def datetime_sub_def replace_into_def lookup_series_by_name_def
  lookup_request_def sonarr_request_def except_RequestException_def logger_def
  get_bgm_collection_def get_list_def jsonify_def

section \<open>The cache\<close>

lemma fetchone_SomeD:
  "fetchone key rows = Some r \<Longrightarrow> r \<in> set rows \<and> series_name r = key \<and> key \<noteq> None"
  by (cases key) (auto simp: find_Some_iff)

lemma fetchone_unique:
  "unique_series_name rows \<Longrightarrow> r \<in> set rows \<Longrightarrow> series_name r = Some k \<Longrightarrow>
   fetchone (Some k) rows = Some r"
  unfolding unique_series_name_def
proof (induction rows)
  case Nil
  then show ?case by simp
next
  case (Cons a rows)
  show ?case
  proof (cases "series_name a = Some k")
    case True
    with Cons.prems have "r = a" by (cases "r = a") (auto simp: image_iff)
    with True show ?thesis by simp
  next
    case False
    with Cons.prems have "r \<in> set rows" by auto
    moreover from Cons.prems have "distinct (filter (\<lambda>k. k \<noteq> None) (map series_name rows))"
      by (simp split: if_splits)
    ultimately have "fetchone (Some k) rows = Some r"
      using Cons.IH Cons.prems(3) by blast
    with False show ?thesis by simp
  qed
qed

lemma unique_series_name_count:
  "unique_series_name rows \<Longrightarrow> length (filter (\<lambda>r. series_name r = Some k) rows) \<le> 1"
  unfolding unique_series_name_def
proof (induction rows)
  case Nil
  then show ?case by simp
next
  case (Cons a rows)
  from Cons.prems have d: "distinct (filter (\<lambda>k. k \<noteq> None) (map series_name rows))"
    by (simp split: if_splits)
  show ?case
  proof (cases "series_name a = Some k")
    case True
    with Cons.prems have "\<forall>r\<in>set rows. series_name r \<noteq> Some k"
      by (auto simp: image_iff)
    then have "filter (\<lambda>r. series_name r = Some k) rows = []"
      by (simp add: filter_empty_conv)
    with True show ?thesis by simp
  next
    case False
    with Cons.IH [OF d] show ?thesis by simp
  qed
qed

lemma find_after_replace:
  "find (\<lambda>r. series_name r = Some k) (filter (\<lambda>r. series_name r \<noteq> Some k) rows @ [x]) =
     (if series_name x = Some k then Some x else None)"
  by (induction rows) auto

lemma distinct_names_filter:
  "distinct (filter (\<lambda>k. k \<noteq> None) (map series_name rows)) \<Longrightarrow>
   distinct (filter (\<lambda>k. k \<noteq> None)
     (map series_name (filter (\<lambda>r. series_name r \<noteq> Some k) rows)))"
proof (induction rows)
  case Nil
  then show ?case by simp
next
  case (Cons a rows)
  have sub: "set (filter (\<lambda>r. series_name r \<noteq> Some k) rows) \<subseteq> set rows"
    by auto
  from Cons show ?case
    using image_mono [OF sub, of series_name] by (auto split: if_splits)
qed

lemma unique_replace_into:
  assumes "unique_series_name (tvdb_cache s)"
  shows "unique_series_name (tvdb_cache (replace_into key v t s))"
proof (cases key)
  case None
  with assms show ?thesis by (simp add: replace_into_def unique_series_name_def)
next
  case (Some k)
  from assms have "distinct (filter (\<lambda>k. k \<noteq> None)
     (map series_name (filter (\<lambda>r. series_name r \<noteq> Some k) (tvdb_cache s))))"
    unfolding unique_series_name_def by (rule distinct_names_filter)
  with Some show ?thesis
    by (auto simp: replace_into_def unique_series_name_def)
qed

lemma TVDBCache_get_found:
  assumes "db_accessible e (connects s)"
    and "fetchone (Some name) (tvdb_cache s) = Some r"
    and "- 999999999 \<le> expire_days e \<and> expire_days e \<le> 999999999"
    and "0 \<le> clock e (clock_reads s) - expire_days e * 86400000000 \<and>
         clock e (clock_reads s) - expire_days e * 86400000000 \<le> datetime_max"
  shows "fst (TVDBCache_get e (JStr name) s) =
     (if clock e (clock_reads s) - created_at r < expire_days e * 86400000000
      then (case py_int e (tvdb_id r) of Inl x \<Rightarrow> Raise x | Inr i \<Rightarrow> Return (Some i))
      else Return None)"
  using assms
  by (simp add: TVDBCache_get_def sqlite3_connect_def datetime_now_def timedelta_days_def
      datetime_sub_def split: sum.splits)

lemma TVDBCache_get_absent:
  "db_accessible e (connects s) \<Longrightarrow> fetchone (Some name) (tvdb_cache s) = None \<Longrightarrow>
   TVDBCache_get e (JStr name) s = (Return None, s\<lparr>connects := Suc (connects s)\<rparr>)"
  by (simp add: TVDBCache_get_def sqlite3_connect_def)

lemma TVDBCache_get_frame:
  "tvdb_cache (snd (TVDBCache_get e name s)) = tvdb_cache s"
  "sqlite_sequence (snd (TVDBCache_get e name s)) = sqlite_sequence s"
  "sonarr_calls (snd (TVDBCache_get e name s)) = sonarr_calls s"
  "app_log (snd (TVDBCache_get e name s)) = app_log s"
  "connects (snd (TVDBCache_get e name s)) = Suc (connects s)"
  by (simp_all add: TVDBCache_get_def sqlite3_connect_def datetime_now_def
      split: option.splits sum.splits)

lemma TVDBCache_get_Return:
  "fst (TVDBCache_get e name s) = Return r \<Longrightarrow> db_accessible e (connects s)"
  by (auto simp: TVDBCache_get_def sqlite3_connect_def split: if_splits)

text \<open>
  C1. With the database reachable, at most one row per name (which C6 shows for every
  table the program builds), a window of at most 999999999 days and a window start
  \<open>now - timedelta(days=expire_days)\<close> within the years 1 to 9999,
  \<^verbatim>\<open>TVDBCache.get\<close> returns the integer identifier of the row with exactly that name
  when \<open>now - created_at < timedelta(days=expire_days)\<close>, and \<^verbatim>\<open>None\<close> in every
  other case (no such row, or a row of that age or older); it does not raise for a
  missing name.
\<close>

theorem TVDBCache_get_contract:
  assumes "db_accessible e (connects s)"
    and "unique_series_name (tvdb_cache s)"
    and "- 999999999 \<le> expire_days e \<and> expire_days e \<le> 999999999"
    and "0 \<le> clock e (clock_reads s) - expire_days e * 86400000000 \<and>
         clock e (clock_reads s) - expire_days e * 86400000000 \<le> datetime_max"
  shows "(\<forall>r\<in>set (tvdb_cache s). \<forall>i.
            series_name r = Some name \<and> tvdb_id r = SqlInt i \<and>
            clock e (clock_reads s) - created_at r < expire_days e * 86400000000 \<longrightarrow>
            fst (TVDBCache_get e (JStr name) s) = Return (Some i)) \<and>
         ((\<forall>r\<in>set (tvdb_cache s).
            series_name r = Some name \<longrightarrow>
            \<not> clock e (clock_reads s) - created_at r < expire_days e * 86400000000) \<longrightarrow>
            fst (TVDBCache_get e (JStr name) s) = Return None)"
proof (intro conjI ballI allI impI)
  fix r i
  assume r: "r \<in> set (tvdb_cache s)"
    and "series_name r = Some name \<and> tvdb_id r = SqlInt i \<and>
         clock e (clock_reads s) - created_at r < expire_days e * 86400000000"
  then have n: "series_name r = Some name" and i: "tvdb_id r = SqlInt i"
    and fresh: "clock e (clock_reads s) - created_at r < expire_days e * 86400000000"
    by simp_all
  from fetchone_unique [OF assms(2) r n]
  have "fetchone (Some name) (tvdb_cache s) = Some r" .
  from TVDBCache_get_found [OF assms(1) this assms(3,4)] fresh i
  show "fst (TVDBCache_get e (JStr name) s) = Return (Some i)"
    by simp
next
  assume stale: "\<forall>r\<in>set (tvdb_cache s). series_name r = Some name \<longrightarrow>
    \<not> clock e (clock_reads s) - created_at r < expire_days e * 86400000000"
  show "fst (TVDBCache_get e (JStr name) s) = Return None"
  proof (cases "fetchone (Some name) (tvdb_cache s)")
    case None
    from TVDBCache_get_absent [OF assms(1) this] show ?thesis by simp
  next
    case (Some r0)
    from fetchone_SomeD [OF Some] stale
    have "\<not> clock e (clock_reads s) - created_at r0 < expire_days e * 86400000000"
      by blast
    with TVDBCache_get_found [OF assms(1) Some assms(3,4)] show ?thesis by simp
  qed
qed

theorem TVDBCache_get_contract_witness:
  "fst (TVDBCache_get (example_env api_down (Body JNull)) (JStr ''Example'') example_state) =
     Return (Some 42) \<and>
   fst (TVDBCache_get (example_env api_down (Body JNull)) (JStr ''example'') example_state) =
     Return None \<and>
   fst (TVDBCache_get (example_env api_down (Body JNull)\<lparr>clock := \<lambda>n. 63900604800000000\<rparr>)
          (JStr ''Example'') example_state) = Return None"
  using TVDBCache_get_contract [of "example_env api_down (Body JNull)" example_state "''Example''"]
    TVDBCache_get_contract [of "example_env api_down (Body JNull)" example_state "''example''"]
    TVDBCache_get_contract [of "example_env api_down (Body JNull)\<lparr>clock := \<lambda>n. 63900604800000000\<rparr>"
       example_state "''Example''"]
  by (simp add: example_defs unique_series_name_def)

section \<open>The resolver\<close>

lemma TVDBCache_set_frame:
  "sonarr_calls (snd (TVDBCache_set e name v s)) = sonarr_calls s"
  "app_log (snd (TVDBCache_set e name v s)) = app_log s"
  "connects (snd (TVDBCache_set e name v s)) = Suc (connects s)"
  by (simp_all add: TVDBCache_set_def sqlite3_connect_def datetime_now_def replace_into_def
      split: sum.splits)

lemma TVDBCache_set_stored:
  assumes "db_accessible e (connects s)"
    and "- 9223372036854775808 \<le> i \<and> i \<le> 9223372036854775807"
  shows "fst (TVDBCache_set e (JStr name) (JInt i) s) = Return ()"
    and "tvdb_cache (snd (TVDBCache_set e (JStr name) (JInt i) s)) =
      filter (\<lambda>r. series_name r \<noteq> Some name) (tvdb_cache s) @
      [\<lparr>row_id = Suc (sqlite_sequence s), series_name = Some name, tvdb_id = SqlInt i,
        created_at = clock e (clock_reads s)\<rparr>]"
    and "sqlite_sequence (snd (TVDBCache_set e (JStr name) (JInt i) s)) = Suc (sqlite_sequence s)"
    and "clock_reads (snd (TVDBCache_set e (JStr name) (JInt i) s)) = Suc (clock_reads s)"
  using assms
  by (simp_all add: TVDBCache_set_def sqlite3_connect_def datetime_now_def replace_into_def)

lemma lookup_series_by_name_hit:
  "fst (TVDBCache_get e name s) = Return (Some i) \<Longrightarrow> i \<noteq> 0 \<Longrightarrow>
   lookup_series_by_name e name s = (Return (JInt i), snd (TVDBCache_get e name s))"
  by (cases "TVDBCache_get e name s") (simp add: lookup_series_by_name_def)

lemma lookup_series_by_name_miss:
  "fst (TVDBCache_get e name s) = Return None \<or> fst (TVDBCache_get e name s) = Return (Some 0) \<Longrightarrow>
   lookup_series_by_name e name s = lookup_request e name (snd (TVDBCache_get e name s))"
  by (cases "TVDBCache_get e name s") (auto simp: lookup_series_by_name_def)

lemma lookup_request_calls:
  "sonarr_calls (snd (lookup_request e name s)) = sonarr_calls s @ [name]"
proof -
  have st: "sonarr_calls (snd (TVDBCache_set e name v s')) = sonarr_calls s'" for v s'
    by (rule TVDBCache_set_frame)
  have "sonarr_calls s2 = sonarr_calls s'" if "TVDBCache_set e name v s' = (r, s2)" for v s' r s2
    using st [of v s'] that by simp
  then show ?thesis
    by (auto simp: lookup_request_def sonarr_request_def except_RequestException_def logger_def
        split: response.splits sum.splits prod.splits outcome.splits)
qed

lemma lookup_request_success:
  assumes "db_accessible e (connects s)"
    and "sonarr_api e (length (sonarr_calls s)) (JStr name) = Body (JList (first # others))"
    and "subscript_key first ''tvdbId'' = Inr (JInt i)"
    and "- 9223372036854775808 \<le> i \<and> i \<le> 9223372036854775807"
  shows "fst (lookup_request e (JStr name) s) = Return (JInt i)"
    and "tvdb_cache (snd (lookup_request e (JStr name) s)) =
      filter (\<lambda>r. series_name r \<noteq> Some name) (tvdb_cache s) @
      [\<lparr>row_id = Suc (sqlite_sequence s), series_name = Some name, tvdb_id = SqlInt i,
        created_at = clock e (clock_reads s)\<rparr>]"
proof -
  let ?s1 = "s\<lparr>sonarr_calls := sonarr_calls s @ [JStr name]\<rparr>"
  have acc: "db_accessible e (connects ?s1)" using assms(1) by simp
  obtain u s2 where st: "TVDBCache_set e (JStr name) (JInt i) ?s1 = (u, s2)"
    by (cases "TVDBCache_set e (JStr name) (JInt i) ?s1")
  from TVDBCache_set_stored(1,2) [OF acc assms(4), of name] st
  have u: "u = Return ()" and rows: "tvdb_cache s2 =
      filter (\<lambda>r. series_name r \<noteq> Some name) (tvdb_cache s) @
      [\<lparr>row_id = Suc (sqlite_sequence s), series_name = Some name, tvdb_id = SqlInt i,
        created_at = clock e (clock_reads s)\<rparr>]"
    by simp_all
  have "lookup_request e (JStr name) s = (Return (JInt i), s2)"
    using assms(2,3) st u by (simp add: lookup_request_def sonarr_request_def)
  with rows show "fst (lookup_request e (JStr name) s) = Return (JInt i)"
    and "tvdb_cache (snd (lookup_request e (JStr name) s)) =
      filter (\<lambda>r. series_name r \<noteq> Some name) (tvdb_cache s) @
      [\<lparr>row_id = Suc (sqlite_sequence s), series_name = Some name, tvdb_id = SqlInt i,
        created_at = clock e (clock_reads s)\<rparr>]"
    by simp_all
qed

lemma lookup_request_failure:
  assumes "sonarr_api e (length (sonarr_calls s)) name = Raises RequestException \<or>
           sonarr_api e (length (sonarr_calls s)) name = Body (JList [])"
  shows "fst (lookup_request e name s) = Return (JInt 0)"
    and "tvdb_cache (snd (lookup_request e name s)) = tvdb_cache s"
    and "sqlite_sequence (snd (lookup_request e name s)) = sqlite_sequence s"
  using assms
  by (auto simp: lookup_request_def sonarr_request_def except_RequestException_def logger_def)

text \<open>
  C2, as the code has it. When \<^verbatim>\<open>TVDBCache.get\<close> returns an identifier other than 0,
  \<^verbatim>\<open>lookup_series_by_name\<close> returns it, sends nothing to Sonarr and leaves the table
  as it is. When it returns 0, or \<^verbatim>\<open>None\<close>, the lookup goes on with the request
  to Sonarr, from the state the read left, in the same way for both.
\<close>

theorem lookup_cache_hit:
  assumes "fst (TVDBCache_get e name s) = Return r"
  shows "(\<forall>i. r = Some i \<and> i \<noteq> 0 \<longrightarrow>
            fst (lookup_series_by_name e name s) = Return (JInt i) \<and>
            sonarr_calls (snd (lookup_series_by_name e name s)) = sonarr_calls s \<and>
            tvdb_cache (snd (lookup_series_by_name e name s)) = tvdb_cache s) \<and>
         (r = Some 0 \<or> r = None \<longrightarrow>
            lookup_series_by_name e name s =
              lookup_request e name (snd (TVDBCache_get e name s)) \<and>
            sonarr_calls (snd (lookup_series_by_name e name s)) = sonarr_calls s @ [name])"
proof (rule conjI)
  show "\<forall>i. r = Some i \<and> i \<noteq> 0 \<longrightarrow>
            fst (lookup_series_by_name e name s) = Return (JInt i) \<and>
            sonarr_calls (snd (lookup_series_by_name e name s)) = sonarr_calls s \<and>
            tvdb_cache (snd (lookup_series_by_name e name s)) = tvdb_cache s"
  proof (intro allI impI)
    fix i assume "r = Some i \<and> i \<noteq> 0"
    with assms have "lookup_series_by_name e name s =
        (Return (JInt i), snd (TVDBCache_get e name s))"
      by (simp add: lookup_series_by_name_hit)
    then show "fst (lookup_series_by_name e name s) = Return (JInt i) \<and>
            sonarr_calls (snd (lookup_series_by_name e name s)) = sonarr_calls s \<and>
            tvdb_cache (snd (lookup_series_by_name e name s)) = tvdb_cache s"
      by (simp add: TVDBCache_get_frame)
  qed
next
  show "r = Some 0 \<or> r = None \<longrightarrow>
            lookup_series_by_name e name s =
              lookup_request e name (snd (TVDBCache_get e name s)) \<and>
            sonarr_calls (snd (lookup_series_by_name e name s)) = sonarr_calls s @ [name]"
  proof
    assume "r = Some 0 \<or> r = None"
    with assms have "fst (TVDBCache_get e name s) = Return None \<or>
        fst (TVDBCache_get e name s) = Return (Some 0)"
      by auto
    from lookup_series_by_name_miss [OF this]
    show "lookup_series_by_name e name s = lookup_request e name (snd (TVDBCache_get e name s)) \<and>
          sonarr_calls (snd (lookup_series_by_name e name s)) = sonarr_calls s @ [name]"
      by (simp add: lookup_request_calls TVDBCache_get_frame)
  qed
qed

theorem lookup_cache_hit_witness:
  "fst (lookup_series_by_name (example_env api_two_results (Body JNull)) (JStr ''Example'')
     example_state) = Return (JInt 42) \<and>
   sonarr_calls (snd (lookup_series_by_name (example_env api_two_results (Body JNull))
     (JStr ''Example'') example_state)) = [JStr ''Example''] \<and>
   sonarr_calls (snd (lookup_series_by_name (example_env api_zero_then_seven (Body JNull))
     (JStr ''Example'') (example_state\<lparr>tvdb_cache := [\<lparr>row_id = 1, series_name = Some ''Example'',
        tvdb_id = SqlInt 0, created_at = 63900000000000000\<rparr>]\<rparr>))) =
     [JStr ''Example'', JStr ''Example'']"
proof -
  let ?z = "example_state\<lparr>tvdb_cache := [\<lparr>row_id = 1, series_name = Some ''Example'',
        tvdb_id = SqlInt 0, created_at = 63900000000000000\<rparr>]\<rparr>"
  have hit: "fst (TVDBCache_get (example_env api_two_results (Body JNull)) (JStr ''Example'')
      example_state) = Return (Some 42)"
    by (simp add: example_defs program_defs)
  have zero: "fst (TVDBCache_get (example_env api_zero_then_seven (Body JNull)) (JStr ''Example'')
      ?z) = Return (Some 0)"
    by (simp add: example_defs program_defs)
  have "Some (42::int) = Some 42 \<and> (42::int) \<noteq> 0" by simp
  from lookup_cache_hit [OF hit, THEN conjunct1, rule_format, OF this]
  have a: "fst (lookup_series_by_name (example_env api_two_results (Body JNull)) (JStr ''Example'')
      example_state) = Return (JInt 42) \<and>
    sonarr_calls (snd (lookup_series_by_name (example_env api_two_results (Body JNull))
      (JStr ''Example'') example_state)) = sonarr_calls example_state \<and>
    tvdb_cache (snd (lookup_series_by_name (example_env api_two_results (Body JNull))
      (JStr ''Example'') example_state)) = tvdb_cache example_state" .
  from lookup_cache_hit [OF zero, THEN conjunct2, rule_format, OF disjI1, OF refl, THEN conjunct2]
  have b: "sonarr_calls (snd (lookup_series_by_name (example_env api_zero_then_seven (Body JNull))
      (JStr ''Example'') ?z)) = sonarr_calls ?z @ [JStr ''Example'']" .
  have c: "sonarr_calls example_state = [JStr ''Example'']" "sonarr_calls ?z = [JStr ''Example'']"
    by (simp_all add: example_state_def)
  from a b show ?thesis unfolding c by simp
qed

text \<open>
  C2 as stated fails for a stored identifier 0. Sonarr answers the first request with
  \<^verbatim>\<open>[{"tvdbId": 0}]\<close>, so the first lookup stores 0; at the second lookup the cache
  holds a fresh row and \<^verbatim>\<open>get\<close> returns 0, yet Sonarr is asked again and its new
  answer 7 is returned.
\<close>

theorem lookup_cached_zero_counterexample:
  "fst (TVDBCache_get (example_env api_zero_then_seven (Body JNull)) (JStr ''A'')
      (snd (lookup_series_by_name (example_env api_zero_then_seven (Body JNull)) (JStr ''A'')
        init_db))) = Return (Some 0) \<and>
   fst (lookup_series_by_name (example_env api_zero_then_seven (Body JNull)) (JStr ''A'')
      (snd (lookup_series_by_name (example_env api_zero_then_seven (Body JNull)) (JStr ''A'')
        init_db))) = Return (JInt 7) \<and>
   sonarr_calls (snd (lookup_series_by_name (example_env api_zero_then_seven (Body JNull))
      (JStr ''A'')
      (snd (lookup_series_by_name (example_env api_zero_then_seven (Body JNull)) (JStr ''A'')
        init_db)))) = [JStr ''A'', JStr ''A'']"
  by (simp add: example_defs program_defs)

text \<open>
  C3. After a cache miss, when the Sonarr request raises a
  \<^verbatim>\<open>RequestException\<close> (network error, timeout, status that \<^verbatim>\<open>raise_for_status\<close>
  rejects) or gives the empty list, \<^verbatim>\<open>lookup_series_by_name\<close> returns 0, raises
  nothing, and the table is unchanged.
\<close>

theorem lookup_failure_sentinel:
  assumes "fst (TVDBCache_get e name s) = Return None"
    and "sonarr_api e (length (sonarr_calls s)) name = Raises RequestException \<or>
         sonarr_api e (length (sonarr_calls s)) name = Body (JList [])"
  shows "fst (lookup_series_by_name e name s) = Return (JInt 0) \<and>
         tvdb_cache (snd (lookup_series_by_name e name s)) = tvdb_cache s \<and>
         sqlite_sequence (snd (lookup_series_by_name e name s)) = sqlite_sequence s"
proof -
  let ?s0 = "snd (TVDBCache_get e name s)"
  have api: "sonarr_api e (length (sonarr_calls ?s0)) name = Raises RequestException \<or>
             sonarr_api e (length (sonarr_calls ?s0)) name = Body (JList [])"
    using assms(2) by (simp add: TVDBCache_get_frame)
  show ?thesis
    using lookup_request_failure [OF api] lookup_series_by_name_miss [OF disjI1, OF assms(1)]
    by (simp add: TVDBCache_get_frame)
qed

theorem lookup_failure_sentinel_witness:
  "fst (lookup_series_by_name (example_env api_down (Body JNull)) (JStr ''A'') example_state) =
     Return (JInt 0) \<and>
   tvdb_cache (snd (lookup_series_by_name (example_env api_down (Body JNull)) (JStr ''A'')
     example_state)) = tvdb_cache example_state \<and>
   fst (lookup_series_by_name (example_env api_empty (Body JNull)) (JStr ''A'') example_state) =
     Return (JInt 0) \<and>
   tvdb_cache (snd (lookup_series_by_name (example_env api_empty (Body JNull)) (JStr ''A'')
     example_state)) = tvdb_cache example_state"
proof -
  have miss: "fst (TVDBCache_get (example_env api (Body JNull)) (JStr ''A'') example_state) =
      Return None" for api
    by (simp add: example_defs program_defs)
  have down: "sonarr_api (example_env api_down (Body JNull)) (length (sonarr_calls example_state))
      (JStr ''A'') = Raises RequestException"
    by (simp add: example_defs)
  have empty: "sonarr_api (example_env api_empty (Body JNull)) (length (sonarr_calls example_state))
      (JStr ''A'') = Body (JList [])"
    by (simp add: example_defs)
  from lookup_failure_sentinel [OF miss disjI1, OF down]
    lookup_failure_sentinel [OF miss disjI2, OF empty]
  show ?thesis by simp
qed

text \<open>
  C4. After a cache miss, when Sonarr gives a non-empty list whose first element carries
  an integer \<^verbatim>\<open>tvdbId\<close> that fits SQLite's 64 bits, and the database is reachable
  for the write, \<^verbatim>\<open>lookup_series_by_name\<close> returns that identifier, whatever the
  later elements are, and the table then holds for the name one row with that
  identifier and the time of the write; rows of other names are untouched.
\<close>

theorem lookup_first_result:
  assumes "fst (TVDBCache_get e (JStr name) s) = Return None"
    and "sonarr_api e (length (sonarr_calls s)) (JStr name) = Body (JList (first # others))"
    and "subscript_key first ''tvdbId'' = Inr (JInt i)"
    and "- 9223372036854775808 \<le> i \<and> i \<le> 9223372036854775807"
    and "db_accessible e (Suc (connects s))"
  shows "fst (lookup_series_by_name e (JStr name) s) = Return (JInt i) \<and>
         fetchone (Some name) (tvdb_cache (snd (lookup_series_by_name e (JStr name) s))) =
           Some \<lparr>row_id = Suc (sqlite_sequence s), series_name = Some name, tvdb_id = SqlInt i,
                 created_at = clock e (clock_reads (snd (TVDBCache_get e (JStr name) s)))\<rparr> \<and>
         filter (\<lambda>r. series_name r \<noteq> Some name)
             (tvdb_cache (snd (lookup_series_by_name e (JStr name) s))) =
           filter (\<lambda>r. series_name r \<noteq> Some name) (tvdb_cache s)"
proof -
  let ?s0 = "snd (TVDBCache_get e (JStr name) s)"
  have acc: "db_accessible e (connects ?s0)"
    using assms(5) by (simp add: TVDBCache_get_frame)
  have api: "sonarr_api e (length (sonarr_calls ?s0)) (JStr name) = Body (JList (first # others))"
    using assms(2) by (simp add: TVDBCache_get_frame)
  have eq: "lookup_series_by_name e (JStr name) s = lookup_request e (JStr name) ?s0"
    using lookup_series_by_name_miss [OF disjI1, OF assms(1)] .
  from lookup_request_success [OF acc api assms(3,4)]
  have res: "fst (lookup_request e (JStr name) ?s0) = Return (JInt i)"
    and rows: "tvdb_cache (snd (lookup_request e (JStr name) ?s0)) =
      filter (\<lambda>r. series_name r \<noteq> Some name) (tvdb_cache s) @
      [\<lparr>row_id = Suc (sqlite_sequence s), series_name = Some name, tvdb_id = SqlInt i,
        created_at = clock e (clock_reads ?s0)\<rparr>]"
    by (simp_all add: TVDBCache_get_frame)
  show ?thesis
    unfolding eq rows using res by (simp add: find_after_replace)
qed

theorem lookup_first_result_witness:
  "fst (lookup_series_by_name (example_env api_two_results (Body JNull)) (JStr ''Example'') init_db) =
     Return (JInt 42) \<and>
   fetchone (Some ''Example'') (tvdb_cache (snd (lookup_series_by_name
       (example_env api_two_results (Body JNull)) (JStr ''Example'') init_db))) =
     Some \<lparr>row_id = 1, series_name = Some ''Example'', tvdb_id = SqlInt 42,
       created_at = 63900000000000000\<rparr>"
proof -
  let ?e = "example_env api_two_results (Body JNull)"
  have miss: "fst (TVDBCache_get ?e (JStr ''Example'') init_db) = Return None"
    by (simp add: example_defs program_defs)
  have s0: "clock_reads (snd (TVDBCache_get ?e (JStr ''Example'') init_db)) = 0"
    by (simp add: example_defs program_defs)
  have api: "sonarr_api ?e (length (sonarr_calls init_db)) (JStr ''Example'') =
      Body (JList (JObj [(''title'', JStr ''Example''), (''tvdbId'', JInt 42)] #
        [JObj [(''tvdbId'', JInt 99)]]))"
    by (simp add: example_defs)
  have fld: "subscript_key (JObj [(''title'', JStr ''Example''), (''tvdbId'', JInt 42)]) ''tvdbId'' =
      Inr (JInt 42)"
    by simp
  have rng: "- 9223372036854775808 \<le> (42::int) \<and> (42::int) \<le> 9223372036854775807"
    by simp
  have acc: "db_accessible ?e (Suc (connects init_db))"
    by (simp add: example_defs)
  from lookup_first_result [OF miss api fld rng acc] show ?thesis
    unfolding s0 by (simp add: example_defs)
qed

text \<open>
  C5. In the situation of C4 the lookup returns the identifier, and a later
  \<^verbatim>\<open>TVDBCache.get\<close> of the same name, on the table the lookup left, with the
  database reachable, the window start a representable date and the time less than the
  window after the write, returns the same identifier.
\<close>

theorem lookup_then_get:
  assumes "fst (TVDBCache_get e (JStr name) s) = Return None"
    and "sonarr_api e (length (sonarr_calls s)) (JStr name) = Body (JList (first # others))"
    and "subscript_key first ''tvdbId'' = Inr (JInt i)"
    and "- 9223372036854775808 \<le> i \<and> i \<le> 9223372036854775807"
    and "db_accessible e (Suc (connects s))"
    and "tvdb_cache s' = tvdb_cache (snd (lookup_series_by_name e (JStr name) s))"
    and "db_accessible e (connects s')"
    and "- 999999999 \<le> expire_days e \<and> expire_days e \<le> 999999999"
    and "0 \<le> clock e (clock_reads s') - expire_days e * 86400000000 \<and>
         clock e (clock_reads s') - expire_days e * 86400000000 \<le> datetime_max"
    and "clock e (clock_reads s') - clock e (clock_reads (snd (TVDBCache_get e (JStr name) s)))
           < expire_days e * 86400000000"
  shows "fst (lookup_series_by_name e (JStr name) s) = Return (JInt i) \<and>
         fst (TVDBCache_get e (JStr name) s') = Return (Some i)"
proof -
  let ?s0 = "snd (TVDBCache_get e (JStr name) s)"
  have acc: "db_accessible e (connects ?s0)"
    using assms(5) by (simp add: TVDBCache_get_frame)
  have api: "sonarr_api e (length (sonarr_calls ?s0)) (JStr name) = Body (JList (first # others))"
    using assms(2) by (simp add: TVDBCache_get_frame)
  have eq: "lookup_series_by_name e (JStr name) s = lookup_request e (JStr name) ?s0"
    using lookup_series_by_name_miss [OF disjI1, OF assms(1)] .
  from lookup_request_success [OF acc api assms(3,4)]
  have res: "fst (lookup_request e (JStr name) ?s0) = Return (JInt i)"
    and rows: "tvdb_cache (snd (lookup_request e (JStr name) ?s0)) =
      filter (\<lambda>r. series_name r \<noteq> Some name) (tvdb_cache s) @
      [\<lparr>row_id = Suc (sqlite_sequence s), series_name = Some name, tvdb_id = SqlInt i,
        created_at = clock e (clock_reads ?s0)\<rparr>]"
    by (simp_all add: TVDBCache_get_frame)
  have "fetchone (Some name) (tvdb_cache s') =
     Some \<lparr>row_id = Suc (sqlite_sequence s), series_name = Some name, tvdb_id = SqlInt i,
           created_at = clock e (clock_reads ?s0)\<rparr>"
    unfolding assms(6) eq rows by (simp add: find_after_replace)
  from TVDBCache_get_found [OF assms(7) this assms(8,9)] assms(10) res eq show ?thesis
    by simp
qed

theorem lookup_then_get_witness:
  "fst (lookup_series_by_name (example_env api_two_results (Body JNull)) (JStr ''Example'') init_db) =
     Return (JInt 42) \<and>
   fst (TVDBCache_get (example_env api_two_results (Body JNull)) (JStr ''Example'')
     (snd (lookup_series_by_name (example_env api_two_results (Body JNull)) (JStr ''Example'')
       init_db))) = Return (Some 42)"
proof -
  let ?e = "example_env api_two_results (Body JNull)"
  let ?s' = "snd (lookup_series_by_name ?e (JStr ''Example'') init_db)"
  have miss: "fst (TVDBCache_get ?e (JStr ''Example'') init_db) = Return None"
    by (simp add: example_defs program_defs)
  have api: "sonarr_api ?e (length (sonarr_calls init_db)) (JStr ''Example'') =
      Body (JList (JObj [(''title'', JStr ''Example''), (''tvdbId'', JInt 42)] #
        [JObj [(''tvdbId'', JInt 99)]]))"
    by (simp add: example_defs)
  have fld: "subscript_key (JObj [(''title'', JStr ''Example''), (''tvdbId'', JInt 42)]) ''tvdbId'' =
      Inr (JInt 42)"
    by simp
  have rng: "- 9223372036854775808 \<le> (42::int) \<and> (42::int) \<le> 9223372036854775807"
    by simp
  have acc: "db_accessible ?e (Suc (connects init_db))" "db_accessible ?e (connects ?s')"
    by (simp_all add: example_defs program_defs)
  have days: "- 999999999 \<le> expire_days ?e \<and> expire_days ?e \<le> 999999999"
    by (simp add: example_defs)
  have date: "0 \<le> clock ?e (clock_reads ?s') - expire_days ?e * 86400000000 \<and>
      clock ?e (clock_reads ?s') - expire_days ?e * 86400000000 \<le> datetime_max"
    by (simp add: example_defs program_defs)
  have fresh: "clock ?e (clock_reads ?s') -
      clock ?e (clock_reads (snd (TVDBCache_get ?e (JStr ''Example'') init_db)))
      < expire_days ?e * 86400000000"
    by (simp add: example_defs program_defs)
  from lookup_then_get [OF miss api fld rng acc(1) refl acc(2) days date fresh] show ?thesis .
qed

section \<open>One row per name\<close>

lemma run_op_unique:
  assumes "unique_series_name (tvdb_cache s)"
  shows "unique_series_name (tvdb_cache (run_op e c s))"
proof (cases c)
  case (Get name)
  with assms show ?thesis by (simp add: TVDBCache_get_frame)
next
  case (Set name v)
  have "unique_series_name (tvdb_cache (replace_into key cell t s'))"
    if "tvdb_cache s' = tvdb_cache s" for key cell t s'
    using unique_replace_into [of s' key cell t] that assms by simp
  then show ?thesis unfolding Set
    by (simp add: TVDBCache_set_def sqlite3_connect_def datetime_now_def assms split: sum.splits)
qed

lemma run_ops_unique:
  "unique_series_name (tvdb_cache s) \<Longrightarrow> unique_series_name (tvdb_cache (run_ops ops s))"
proof (induction ops arbitrary: s)
  case Nil
  then show ?case by simp
next
  case (Cons a ops)
  obtain e c where a: "a = (e, c)" by (cases a)
  from Cons.IH [OF run_op_unique [OF Cons.prems]] a show ?case by simp
qed

lemma TVDBCache_set_twice:
  assumes "db_accessible e1 (connects s)" and "db_accessible e2 (Suc (connects s))"
    and "- 9223372036854775808 \<le> i \<and> i \<le> 9223372036854775807"
    and "- 9223372036854775808 \<le> j \<and> j \<le> 9223372036854775807"
  shows "filter (\<lambda>r. series_name r = Some name)
           (tvdb_cache (snd (TVDBCache_set e2 (JStr name) (JInt j)
              (snd (TVDBCache_set e1 (JStr name) (JInt i) s))))) =
         [\<lparr>row_id = Suc (Suc (sqlite_sequence s)), series_name = Some name, tvdb_id = SqlInt j,
           created_at = clock e2 (Suc (clock_reads s))\<rparr>]"
proof -
  let ?s1 = "snd (TVDBCache_set e1 (JStr name) (JInt i) s)"
  have none: "filter (\<lambda>r. series_name r = Some name)
      (filter (\<lambda>r. series_name r \<noteq> Some name) rows) = []" for rows :: "row list"
    by (induction rows) auto
  have acc2: "db_accessible e2 (connects ?s1)"
    using assms(2) by (simp add: TVDBCache_set_frame)
  from TVDBCache_set_stored(2) [OF acc2 assms(4), of name]
    TVDBCache_set_stored(3,4) [OF assms(1,3), of name]
  show ?thesis by (simp add: none)
qed

text \<open>
  C6. Whatever sequence of \<^verbatim>\<open>get\<close> and \<^verbatim>\<open>set\<close> calls ran since \<^verbatim>\<open>init_db\<close>
  created the table, with whatever arguments, no two rows carry the same name: every
  name has at most one row. And two \<^verbatim>\<open>set\<close> calls for one name with identifiers
  that fit SQLite's 64 bits, the database reachable for both, leave from any table
  exactly one row for the name, with the identifier and the clock reading of the second
  call.
\<close>

theorem single_entry_per_name:
  "unique_series_name (tvdb_cache (run_ops ops init_db)) \<and>
   (\<forall>name. length (filter (\<lambda>r. series_name r = Some name)
      (tvdb_cache (run_ops ops init_db))) \<le> 1) \<and>
   (db_accessible e1 (connects s) \<and> db_accessible e2 (Suc (connects s)) \<and>
    - 9223372036854775808 \<le> i \<and> i \<le> 9223372036854775807 \<and>
    - 9223372036854775808 \<le> j \<and> j \<le> 9223372036854775807 \<longrightarrow>
    filter (\<lambda>r. series_name r = Some name)
      (tvdb_cache (snd (TVDBCache_set e2 (JStr name) (JInt j)
         (snd (TVDBCache_set e1 (JStr name) (JInt i) s))))) =
    [\<lparr>row_id = Suc (Suc (sqlite_sequence s)), series_name = Some name, tvdb_id = SqlInt j,
      created_at = clock e2 (Suc (clock_reads s))\<rparr>])"
proof -
  have "unique_series_name (tvdb_cache init_db)"
    by (simp add: init_db_def unique_series_name_def)
  from run_ops_unique [OF this]
  have u: "unique_series_name (tvdb_cache (run_ops ops init_db))" .
  from u unique_series_name_count [OF u] TVDBCache_set_twice show ?thesis
    by blast
qed

theorem single_entry_per_name_witness:
  "tvdb_cache (run_ops
      [(example_env api_down (Body JNull), Set (JStr ''A'') (JInt 1)),
       (example_env api_down (Body JNull), Set (JStr ''B'') (JInt 2)),
       (example_env api_down (Body JNull), Get (JStr ''A'')),
       (example_env api_down (Body JNull), Set (JStr ''A'') (JInt 3))] init_db) =
     [\<lparr>row_id = 2, series_name = Some ''B'', tvdb_id = SqlInt 2, created_at = 63900000000000001\<rparr>,
      \<lparr>row_id = 3, series_name = Some ''A'', tvdb_id = SqlInt 3, created_at = 63900000000000003\<rparr>] \<and>
   unique_series_name (tvdb_cache (run_ops
      [(example_env api_down (Body JNull), Set (JStr ''A'') (JInt 1)),
       (example_env api_down (Body JNull), Set (JStr ''B'') (JInt 2)),
       (example_env api_down (Body JNull), Get (JStr ''A'')),
       (example_env api_down (Body JNull), Set (JStr ''A'') (JInt 3))] init_db)) \<and>
   filter (\<lambda>r. series_name r = Some ''A'')
      (tvdb_cache (snd (TVDBCache_set (example_env api_down (Body JNull)) (JStr ''A'') (JInt 3)
         (snd (TVDBCache_set (example_env api_down (Body JNull)) (JStr ''A'') (JInt 1) init_db))))) =
     [\<lparr>row_id = 2, series_name = Some ''A'', tvdb_id = SqlInt 3, created_at = 63900000000000001\<rparr>]"
proof -
  let ?e = "example_env api_down (Body JNull)"
  let ?ops = "[(?e, Set (JStr ''A'') (JInt 1)), (?e, Set (JStr ''B'') (JInt 2)),
       (?e, Get (JStr ''A'')), (?e, Set (JStr ''A'') (JInt 3))]"
  have acc: "db_accessible ?e (connects init_db) \<and> db_accessible ?e (Suc (connects init_db)) \<and>
    - 9223372036854775808 \<le> (1::int) \<and> (1::int) \<le> 9223372036854775807 \<and>
    - 9223372036854775808 \<le> (3::int) \<and> (3::int) \<le> 9223372036854775807"
    by (simp add: example_env_def)
  have run: "tvdb_cache (run_ops ?ops init_db) =
     [\<lparr>row_id = 2, series_name = Some ''B'', tvdb_id = SqlInt 2, created_at = 63900000000000001\<rparr>,
      \<lparr>row_id = 3, series_name = Some ''A'', tvdb_id = SqlInt 3, created_at = 63900000000000003\<rparr>]"
    by (simp add: example_defs program_defs)
  note inst = single_entry_per_name [of ?ops ?e init_db ?e 1 3 "''A''"]
  from inst [THEN conjunct1] inst [THEN conjunct2, THEN conjunct2, rule_format, OF acc] run
  show ?thesis by (simp add: example_defs)
qed

section \<open>The collection\<close>

lemma comprehension_Cons_Return:
  assumes "subscript_key it ''name'' = Inr n"
    and "lookup_series_by_name e n s = (Return i, s1)"
  shows "comprehension e (it # rest) s =
     (case comprehension e rest s1 of
        (Return its, s2) \<Rightarrow> (Return (\<lparr>title = n, tvdbId = i\<rparr> # its), s2)
      | (Raise x, s2) \<Rightarrow> (Raise x, s2))"
  using assms by simp

lemma snd_comprehension_Cons:
  assumes "subscript_key it ''name'' = Inr n"
    and "lookup_series_by_name e n s = (Return i, s1)"
  shows "snd (comprehension e (it # rest) s) = snd (comprehension e rest s1)"
  unfolding comprehension_Cons_Return [OF assms]
  by (simp split: prod.splits outcome.splits)

lemma comprehension_Cons_Raise:
  assumes "subscript_key it ''name'' = Inr n"
    and "lookup_series_by_name e n s = (Raise x, s1)"
  shows "comprehension e (it # rest) s = (Raise x, s1)"
  using assms by simp

lemma comprehension_Cons_ReturnD:
  assumes "fst (comprehension e (it # rest) s) = Return res"
  obtains n i s1 res' where "subscript_key it ''name'' = Inr n"
    and "lookup_series_by_name e n s = (Return i, s1)"
    and "fst (comprehension e rest s1) = Return res'"
    and "res = \<lparr>title = n, tvdbId = i\<rparr> # res'"
  using assms by (auto split: sum.splits prod.splits outcome.splits)

lemma comprehension_append:
  "comprehension e pre s = (Return res, s1) \<Longrightarrow>
   comprehension e (pre @ rest) s =
     (case comprehension e rest s1 of
        (Return its, s2) \<Rightarrow> (Return (res @ its), s2)
      | (Raise x, s2) \<Rightarrow> (Raise x, s2))"
proof (induction pre arbitrary: s res)
  case Nil
  then show ?case by (simp split: prod.splits outcome.splits)
next
  case (Cons it pre)
  from Cons.prems have "fst (comprehension e (it # pre) s) = Return res" by simp
  then obtain n i s0 res0 where n: "subscript_key it ''name'' = Inr n"
    and lk: "lookup_series_by_name e n s = (Return i, s0)"
    and res: "res = \<lparr>title = n, tvdbId = i\<rparr> # res0"
    and "fst (comprehension e pre s0) = Return res0"
    by (rule comprehension_Cons_ReturnD)
  with Cons.prems have pre: "comprehension e pre s0 = (Return res0, s1)"
    by (cases "comprehension e pre s0") simp
  have "comprehension e ((it # pre) @ rest) s =
     (case comprehension e (pre @ rest) s0 of
        (Return its, s2) \<Rightarrow> (Return (\<lparr>title = n, tvdbId = i\<rparr> # its), s2)
      | (Raise x, s2) \<Rightarrow> (Raise x, s2))"
    using comprehension_Cons_Return [OF n lk, of "pre @ rest"] by simp
  then show ?case unfolding Cons.IH [OF pre] res
    by (simp split: prod.splits outcome.splits)
qed

lemma comprehension_steps:
  assumes "\<forall>k<length its. \<exists>n i. subscript_key (its ! k) ''name'' = Inr n \<and>
      fst (lookup_series_by_name e n (snd (comprehension e (take k its) s))) = Return i"
  shows "\<exists>res. fst (comprehension e its s) = Return res \<and> length res = length its \<and>
     (\<forall>k<length its. subscript_key (its ! k) ''name'' = Inr (title (res ! k)) \<and>
        fst (lookup_series_by_name e (title (res ! k)) (snd (comprehension e (take k its) s))) =
          Return (tvdbId (res ! k)))"
  using assms
proof (induction its arbitrary: s)
  case Nil
  then show ?case by simp
next
  case (Cons it rest)
  from Cons.prems [rule_format, of 0] obtain n i where
    n: "subscript_key it ''name'' = Inr n" and
    r: "fst (lookup_series_by_name e n s) = Return i"
    by auto
  define s1 where "s1 = snd (lookup_series_by_name e n s)"
  from r have lk: "lookup_series_by_name e n s = (Return i, s1)"
    unfolding s1_def by (cases "lookup_series_by_name e n s") simp
  have step: "\<forall>k<length rest. \<exists>n' i'. subscript_key (rest ! k) ''name'' = Inr n' \<and>
      fst (lookup_series_by_name e n' (snd (comprehension e (take k rest) s1))) = Return i'"
  proof (intro allI impI)
    fix k assume "k < length rest"
    then have "Suc k < length (it # rest)" by simp
    from Cons.prems [rule_format, OF this]
    show "\<exists>n' i'. subscript_key (rest ! k) ''name'' = Inr n' \<and>
      fst (lookup_series_by_name e n' (snd (comprehension e (take k rest) s1))) = Return i'"
      unfolding take_Suc_Cons nth_Cons_Suc snd_comprehension_Cons [OF n lk] .
  qed
  from Cons.IH [OF step] obtain res' where
    res': "fst (comprehension e rest s1) = Return res'" "length res' = length rest"
    "\<forall>k<length rest. subscript_key (rest ! k) ''name'' = Inr (title (res' ! k)) \<and>
        fst (lookup_series_by_name e (title (res' ! k)) (snd (comprehension e (take k rest) s1))) =
          Return (tvdbId (res' ! k))"
    by blast
  have whole: "fst (comprehension e (it # rest) s) = Return (\<lparr>title = n, tvdbId = i\<rparr> # res')"
    unfolding comprehension_Cons_Return [OF n lk] using res'(1)
    by (cases "comprehension e rest s1") simp
  have each: "subscript_key ((it # rest) ! k) ''name'' =
        Inr (title ((\<lparr>title = n, tvdbId = i\<rparr> # res') ! k)) \<and>
      fst (lookup_series_by_name e (title ((\<lparr>title = n, tvdbId = i\<rparr> # res') ! k))
            (snd (comprehension e (take k (it # rest)) s))) =
        Return (tvdbId ((\<lparr>title = n, tvdbId = i\<rparr> # res') ! k))"
    if "k < length (it # rest)" for k
  proof (cases k)
    case 0
    with n r show ?thesis by simp
  next
    case (Suc k')
    with that have "k' < length rest" by simp
    from res'(3) [rule_format, OF this] show ?thesis
      unfolding Suc take_Suc_Cons nth_Cons_Suc snd_comprehension_Cons [OF n lk] .
  qed
  from whole res'(2) each show ?case
    by (intro exI [of _ "\<lparr>title = n, tvdbId = i\<rparr> # res'"]) simp
qed

lemma comprehension_Return_steps:
  assumes "fst (comprehension e its s) = Return res" and "k < length its"
  shows "\<exists>n i. subscript_key (its ! k) ''name'' = Inr n \<and>
      fst (lookup_series_by_name e n (snd (comprehension e (take k its) s))) = Return i"
  using assms
proof (induction its arbitrary: s res k)
  case Nil
  then show ?case by simp
next
  case (Cons it rest)
  from Cons.prems(1) obtain n i s1 res' where n: "subscript_key it ''name'' = Inr n"
    and lk: "lookup_series_by_name e n s = (Return i, s1)"
    and rest: "fst (comprehension e rest s1) = Return res'"
    by (rule comprehension_Cons_ReturnD)
  show ?case
  proof (cases k)
    case 0
    with n lk show ?thesis by simp
  next
    case (Suc k')
    with Cons.prems(2) have "k' < length rest" by simp
    from Cons.IH [OF rest this] show ?thesis
      unfolding Suc take_Suc_Cons nth_Cons_Suc snd_comprehension_Cons [OF n lk] .
  qed
qed

text \<open>
  C7, as the code has it. Let the Bangumi request give a list. When every entry has
  a \<^verbatim>\<open>name\<close> and every call of \<^verbatim>\<open>lookup_series_by_name\<close> returns (each in the
  state the entries before it left), \<^verbatim>\<open>get_bgm_collection\<close> returns one item per
  entry in the order of the list, the title the entry's name and the \<^verbatim>\<open>tvdbId\<close>
  what the lookup returned for it. When some entry has no \<^verbatim>\<open>name\<close> or the lookup of
  some entry raises, \<^verbatim>\<open>get_bgm_collection\<close> returns the empty list.
\<close>

theorem get_bgm_collection_maps_in_order:
  assumes "bangumi_api e = Body (JList its)"
  shows "((\<forall>k<length its. \<exists>n i. subscript_key (its ! k) ''name'' = Inr n \<and>
             fst (lookup_series_by_name e n (snd (comprehension e (take k its) s))) = Return i) \<longrightarrow>
          (\<exists>res. fst (get_bgm_collection e s) = Return res \<and> length res = length its \<and>
             (\<forall>k<length its. subscript_key (its ! k) ''name'' = Inr (title (res ! k)) \<and>
                fst (lookup_series_by_name e (title (res ! k))
                      (snd (comprehension e (take k its) s))) = Return (tvdbId (res ! k))))) \<and>
         ((\<exists>k<length its. isl (subscript_key (its ! k) ''name'') \<or>
             (\<exists>n x. subscript_key (its ! k) ''name'' = Inr n \<and>
                fst (lookup_series_by_name e n (snd (comprehension e (take k its) s))) = Raise x)) \<longrightarrow>
          fst (get_bgm_collection e s) = Return [])"
proof (rule conjI)
  show "(\<forall>k<length its. \<exists>n i. subscript_key (its ! k) ''name'' = Inr n \<and>
             fst (lookup_series_by_name e n (snd (comprehension e (take k its) s))) = Return i) \<longrightarrow>
          (\<exists>res. fst (get_bgm_collection e s) = Return res \<and> length res = length its \<and>
             (\<forall>k<length its. subscript_key (its ! k) ''name'' = Inr (title (res ! k)) \<and>
                fst (lookup_series_by_name e (title (res ! k))
                      (snd (comprehension e (take k its) s))) = Return (tvdbId (res ! k))))"
  proof
    assume "\<forall>k<length its. \<exists>n i. subscript_key (its ! k) ''name'' = Inr n \<and>
             fst (lookup_series_by_name e n (snd (comprehension e (take k its) s))) = Return i"
    from comprehension_steps [OF this] obtain res where
      res: "fst (comprehension e its s) = Return res" and
      rest: "length res = length its \<and>
       (\<forall>k<length its. subscript_key (its ! k) ''name'' = Inr (title (res ! k)) \<and>
          fst (lookup_series_by_name e (title (res ! k)) (snd (comprehension e (take k its) s))) =
            Return (tvdbId (res ! k)))"
      by blast
    from res have "fst (get_bgm_collection e s) = Return res"
      using assms by (cases "comprehension e its s") (simp add: get_bgm_collection_def)
    with rest show "\<exists>res. fst (get_bgm_collection e s) = Return res \<and> length res = length its \<and>
             (\<forall>k<length its. subscript_key (its ! k) ''name'' = Inr (title (res ! k)) \<and>
                fst (lookup_series_by_name e (title (res ! k))
                      (snd (comprehension e (take k its) s))) = Return (tvdbId (res ! k)))"
      by blast
  qed
next
  show "(\<exists>k<length its. isl (subscript_key (its ! k) ''name'') \<or>
             (\<exists>n x. subscript_key (its ! k) ''name'' = Inr n \<and>
                fst (lookup_series_by_name e n (snd (comprehension e (take k its) s))) = Raise x)) \<longrightarrow>
          fst (get_bgm_collection e s) = Return []"
  proof
    assume "\<exists>k<length its. isl (subscript_key (its ! k) ''name'') \<or>
             (\<exists>n x. subscript_key (its ! k) ''name'' = Inr n \<and>
                fst (lookup_series_by_name e n (snd (comprehension e (take k its) s))) = Raise x)"
    then obtain k where k: "k < length its"
      and bad: "isl (subscript_key (its ! k) ''name'') \<or>
             (\<exists>n x. subscript_key (its ! k) ''name'' = Inr n \<and>
                fst (lookup_series_by_name e n (snd (comprehension e (take k its) s))) = Raise x)"
      by blast
    have "fst (comprehension e its s) \<noteq> Return res" for res
    proof
      assume "fst (comprehension e its s) = Return res"
      from comprehension_Return_steps [OF this k] bad show False
        by auto
    qed
    then obtain x s1 where "comprehension e its s = (Raise x, s1)"
      by (cases "comprehension e its s"; cases "fst (comprehension e its s)") auto
    with assms show "fst (get_bgm_collection e s) = Return []"
      by (simp add: get_bgm_collection_def)
  qed
qed

theorem get_bgm_collection_maps_in_order_witness:
  "fst (get_bgm_collection (example_env api_A_only bgm_A_B) init_db) =
     Return [\<lparr>title = JStr ''A'', tvdbId = JInt 1\<rparr>, \<lparr>title = JStr ''B'', tvdbId = JInt 0\<rparr>] \<and>
   fst (get_bgm_collection (example_env api_no_id bgm_A_B) init_db) = Return []"
proof -
  let ?e = "example_env api_A_only bgm_A_B"
  let ?f = "example_env api_no_id bgm_A_B"
  let ?its = "[JObj [(''name'', JStr ''A'')], JObj [(''name'', JStr ''B'')]]"
  have bgm: "bangumi_api (example_env api bgm_A_B) = Body (JList ?its)" for api
    by (simp add: example_defs)
  have hyp: "\<forall>k<length ?its. \<exists>n i. subscript_key (?its ! k) ''name'' = Inr n \<and>
      fst (lookup_series_by_name ?e n (snd (comprehension ?e (take k ?its) init_db))) = Return i"
    by (simp add: All_less_Suc example_defs program_defs)
  from get_bgm_collection_maps_in_order [OF bgm, THEN conjunct1, THEN mp, OF hyp] obtain res where
    res: "fst (get_bgm_collection ?e init_db) = Return res" "length res = length ?its"
    and each: "\<forall>k<length ?its. subscript_key (?its ! k) ''name'' = Inr (title (res ! k)) \<and>
        fst (lookup_series_by_name ?e (title (res ! k)) (snd (comprehension ?e (take k ?its) init_db))) =
          Return (tvdbId (res ! k))"
    by blast
  from res(2) obtain a b where ab: "res = [a, b]"
    by (cases res; cases "tl res") auto
  from each have t: "title a = JStr ''A''" "title b = JStr ''B''"
    unfolding ab by (simp_all add: All_less_Suc)
  from each have "fst (lookup_series_by_name ?e (JStr ''A'') init_db) = Return (tvdbId a)"
    unfolding ab by (simp add: All_less_Suc t)
  then have ia: "tvdbId a = JInt 1"
    by (simp add: example_defs program_defs)
  from each have "fst (lookup_series_by_name ?e (JStr ''B'')
       (snd (comprehension ?e [JObj [(''name'', JStr ''A'')]] init_db))) = Return (tvdbId b)"
    unfolding ab by (simp add: All_less_Suc t)
  then have ib: "tvdbId b = JInt 0"
    by (simp add: example_defs program_defs)
  note i = ia ib
  from t i have "a = \<lparr>title = JStr ''A'', tvdbId = JInt 1\<rparr>" "b = \<lparr>title = JStr ''B'', tvdbId = JInt 0\<rparr>"
    by simp_all
  with res(1) ab have first: "fst (get_bgm_collection ?e init_db) =
     Return [\<lparr>title = JStr ''A'', tvdbId = JInt 1\<rparr>, \<lparr>title = JStr ''B'', tvdbId = JInt 0\<rparr>]"
    by simp
  have bad: "\<exists>k<length ?its. isl (subscript_key (?its ! k) ''name'') \<or>
      (\<exists>n x. subscript_key (?its ! k) ''name'' = Inr n \<and>
         fst (lookup_series_by_name ?f n (snd (comprehension ?f (take k ?its) init_db))) = Raise x)"
    by (rule exI [of _ 0]) (simp add: example_defs program_defs)
  from get_bgm_collection_maps_in_order [OF bgm, THEN conjunct2, THEN mp, OF bad] first
  show ?thesis by simp
qed

text \<open>
  C7 as stated fails when a lookup raises: the Bangumi list has two entries, Sonarr
  answers with a result that has no \<^verbatim>\<open>tvdbId\<close>, the \<^verbatim>\<open>KeyError\<close> ends the
  comprehension and the result is the empty list, not one item per entry.
\<close>

theorem get_bgm_collection_lookup_raises_counterexample:
  "bangumi_api (example_env api_no_id bgm_A_B) =
     Body (JList [JObj [(''name'', JStr ''A'')], JObj [(''name'', JStr ''B'')]]) \<and>
   fst (get_bgm_collection (example_env api_no_id bgm_A_B) init_db) = Return []"
  by (simp add: example_defs program_defs)

lemma get_bgm_collection_no_raise: "fst (get_bgm_collection e s) \<noteq> Raise x"
  by (simp add: get_bgm_collection_def split: response.splits sum.splits prod.splits outcome.splits)

lemma get_list_fst:
  "fst (get_list e s) =
     (case fst (get_bgm_collection e s) of
        Return its \<Rightarrow> Return \<lparr>status = 200, body = its\<rparr>
      | Raise x \<Rightarrow> Raise x)"
  by (simp add: get_list_def jsonify_def split: prod.splits outcome.splits)

lemma comprehension_strings:
  "fst (comprehension e (map (\<lambda>x. JStr (f x)) xs) s) = (if xs = [] then Return [] else Raise TypeError)"
  by (cases xs) simp_all

lemma get_bgm_collection_not_list:
  assumes "bangumi_api e = Body p" and "\<forall>its. p \<noteq> JList its"
  shows "fst (get_bgm_collection e s) = Return []"
proof (cases p)
  case (JList its)
  with assms(2) show ?thesis by simp
next
  case (JObj kvs)
  have "fst (comprehension e (map (\<lambda>kv. JStr (fst kv)) kvs) s) =
      (if kvs = [] then Return [] else Raise TypeError)"
    by (rule comprehension_strings)
  with JObj assms(1) show ?thesis
    by (cases "comprehension e (map (\<lambda>kv. JStr (fst kv)) kvs) s")
      (simp add: get_bgm_collection_def split: if_splits)
next
  case (JStr cs)
  have "fst (comprehension e (map (\<lambda>c. JStr [c]) cs) s) =
      (if cs = [] then Return [] else Raise TypeError)"
    by (rule comprehension_strings)
  with JStr assms(1) show ?thesis
    by (cases "comprehension e (map (\<lambda>c. JStr [c]) cs) s")
      (simp add: get_bgm_collection_def split: if_splits)
qed (use assms(1) in \<open>simp_all add: get_bgm_collection_def\<close>)

lemma get_bgm_collection_bad_entry:
  assumes "bangumi_api e = Body (JList its)"
    and "\<exists>it\<in>set its. isl (subscript_key it ''name'')"
  shows "fst (get_bgm_collection e s) = Return []"
proof -
  from assms(2) obtain k where "k < length its" "isl (subscript_key (its ! k) ''name'')"
    by (auto simp: in_set_conv_nth)
  then have "fst (comprehension e its s) \<noteq> Return res" for res
    using comprehension_Return_steps [of e its s res k] by auto
  then obtain x s1 where "comprehension e its s = (Raise x, s1)"
    by (cases "comprehension e its s"; cases "fst (comprehension e its s)") auto
  with assms(1) show ?thesis
    by (simp add: get_bgm_collection_def)
qed

text \<open>
  C8, as the code has it. When the Bangumi request raises (network error, rejected
  status, undecodable body), or its payload is not a list, or an entry of the list is
  not an object with a \<^verbatim>\<open>name\<close>, \<^verbatim>\<open>get_bgm_collection\<close> returns the empty list
  and \<^verbatim>\<open>GET /watching-list\<close> answers 200 with \<open>[]\<close>; and in no world does either
  function raise.
\<close>

theorem get_bgm_collection_degrades:
  assumes "(\<exists>x. bangumi_api e = Raises x) \<or>
           (\<exists>p. bangumi_api e = Body p \<and> (\<forall>its. p \<noteq> JList its)) \<or>
           (\<exists>its. bangumi_api e = Body (JList its) \<and>
              (\<exists>it\<in>set its. isl (subscript_key it ''name'')))"
  shows "fst (get_bgm_collection e s) = Return [] \<and>
         fst (get_list e s) = Return \<lparr>status = 200, body = []\<rparr> \<and>
         (\<forall>e' s' x. fst (get_bgm_collection e' s') \<noteq> Raise x \<and> fst (get_list e' s') \<noteq> Raise x)"
proof -
  have empty: "fst (get_bgm_collection e s) = Return []"
    using assms
  proof (elim disjE exE conjE)
    fix x assume "bangumi_api e = Raises x"
    then show ?thesis by (simp add: get_bgm_collection_def)
  next
    fix p assume "bangumi_api e = Body p" "\<forall>its. p \<noteq> JList its"
    then show ?thesis by (rule get_bgm_collection_not_list)
  next
    fix its assume "bangumi_api e = Body (JList its)"
      "\<exists>it\<in>set its. isl (subscript_key it ''name'')"
    then show ?thesis by (rule get_bgm_collection_bad_entry)
  qed
  have never: "fst (get_bgm_collection e' s') \<noteq> Raise x \<and> fst (get_list e' s') \<noteq> Raise x"
    for e' s' x
    using get_bgm_collection_no_raise [of e' s']
    by (simp add: get_list_fst split: outcome.splits)
  have "fst (get_list e s) = Return \<lparr>status = 200, body = []\<rparr>"
    using empty by (simp add: get_list_fst)
  with empty never show ?thesis
    by blast
qed

theorem get_bgm_collection_degrades_witness:
  "fst (get_list (example_env api_two_results (Raises RequestException)) init_db) =
     Return \<lparr>status = 200, body = []\<rparr> \<and>
   fst (get_list (example_env api_two_results (Body (JObj [(''error'', JStr ''Not Found'')]))) init_db) =
     Return \<lparr>status = 200, body = []\<rparr> \<and>
   fst (get_list (example_env api_two_results bgm_A_then_5) init_db) =
     Return \<lparr>status = 200, body = []\<rparr>"
proof -
  let ?e1 = "example_env api_two_results (Raises RequestException)"
  let ?e2 = "example_env api_two_results (Body (JObj [(''error'', JStr ''Not Found'')]))"
  let ?e3 = "example_env api_two_results bgm_A_then_5"
  have h1: "(\<exists>x. bangumi_api ?e1 = Raises x) \<or>
           (\<exists>p. bangumi_api ?e1 = Body p \<and> (\<forall>its. p \<noteq> JList its)) \<or>
           (\<exists>its. bangumi_api ?e1 = Body (JList its) \<and>
              (\<exists>it\<in>set its. isl (subscript_key it ''name'')))"
    by (simp add: example_env_def)
  have h2: "(\<exists>x. bangumi_api ?e2 = Raises x) \<or>
           (\<exists>p. bangumi_api ?e2 = Body p \<and> (\<forall>its. p \<noteq> JList its)) \<or>
           (\<exists>its. bangumi_api ?e2 = Body (JList its) \<and>
              (\<exists>it\<in>set its. isl (subscript_key it ''name'')))"
    by (simp add: example_env_def)
  have h3: "(\<exists>x. bangumi_api ?e3 = Raises x) \<or>
           (\<exists>p. bangumi_api ?e3 = Body p \<and> (\<forall>its. p \<noteq> JList its)) \<or>
           (\<exists>its. bangumi_api ?e3 = Body (JList its) \<and>
              (\<exists>it\<in>set its. isl (subscript_key it ''name'')))"
    by (simp add: example_env_def bgm_A_then_5_def)
  from get_bgm_collection_degrades [OF h1, of init_db]
    get_bgm_collection_degrades [OF h2, of init_db]
    get_bgm_collection_degrades [OF h3, of init_db]
  show ?thesis by blast
qed

text \<open>
  C8 as stated fails for a payload that is malformed in the type of a name only: for
  \<^verbatim>\<open>[{"name": null}]\<close> nothing raises, the lookup of \<^verbatim>\<open>None\<close> finds no row and
  no result, and the route answers 200 with one item, not with \<open>[]\<close>.
\<close>

theorem null_name_counterexample:
  "bangumi_api (example_env api_empty bgm_null_name) = Body (JList [JObj [(''name'', JNull)]]) \<and>
   fst (get_bgm_collection (example_env api_empty bgm_null_name) init_db) =
     Return [\<lparr>title = JNull, tvdbId = JInt 0\<rparr>] \<and>
   fst (get_list (example_env api_empty bgm_null_name) init_db) =
     Return \<lparr>status = 200, body = [\<lparr>title = JNull, tvdbId = JInt 0\<rparr>]\<rparr>"
  by (simp add: example_defs program_defs)

section \<open>Storage errors and malformed lookup payloads\<close>

text \<open>
  C9, as the code has it. With the database out of reach, \<^verbatim>\<open>TVDBCache.get\<close> and
  \<^verbatim>\<open>TVDBCache.set\<close> raise the storage error and \<^verbatim>\<open>lookup_series_by_name\<close> passes
  it on, from the read and from the write alike, instead of returning 0; but
  \<^verbatim>\<open>get_bgm_collection\<close> catches it with every other exception and returns the
  empty list, which the route serves with status 200.
\<close>

theorem storage_error_propagation:
  assumes "\<not> db_accessible e (connects s)"
  shows "fst (TVDBCache_get e name s) = Raise Sqlite3Error \<and>
         fst (TVDBCache_set e name v s) = Raise Sqlite3Error \<and>
         fst (lookup_series_by_name e name s) = Raise Sqlite3Error \<and>
         (sonarr_api e (length (sonarr_calls s)) name = Body (JList (first # others)) \<and>
          subscript_key first ''tvdbId'' = Inr v \<longrightarrow>
            fst (lookup_request e name s) = Raise Sqlite3Error) \<and>
         (bangumi_api e = Body (JList (it # rest)) \<and>
          subscript_key it ''name'' = Inr name \<longrightarrow>
            fst (get_bgm_collection e s) = Return [] \<and>
            fst (get_list e s) = Return \<lparr>status = 200, body = []\<rparr>)"
proof -
  have g: "TVDBCache_get e name s = (Raise Sqlite3Error, s\<lparr>connects := Suc (connects s)\<rparr>)"
    using assms by (simp add: TVDBCache_get_def sqlite3_connect_def)
  have st: "fst (TVDBCache_set e name v s') = Raise Sqlite3Error" if "connects s' = connects s" for s'
    using assms that by (simp add: TVDBCache_set_def sqlite3_connect_def)
  have lk: "lookup_series_by_name e name s = (Raise Sqlite3Error, s\<lparr>connects := Suc (connects s)\<rparr>)"
    using g by (simp add: lookup_series_by_name_def)
  have rq: "fst (lookup_request e name s) = Raise Sqlite3Error"
    if "sonarr_api e (length (sonarr_calls s)) name = Body (JList (first # others))"
      and "subscript_key first ''tvdbId'' = Inr v"
  proof -
    let ?s1 = "s\<lparr>sonarr_calls := sonarr_calls s @ [name]\<rparr>"
    have "fst (TVDBCache_set e name v ?s1) = Raise Sqlite3Error"
      by (rule st) simp
    then obtain s2 where "TVDBCache_set e name v ?s1 = (Raise Sqlite3Error, s2)"
      by (cases "TVDBCache_set e name v ?s1") simp
    with that show ?thesis
      by (simp add: lookup_request_def sonarr_request_def except_RequestException_def)
  qed
  have gb: "fst (get_bgm_collection e s) = Return []"
    if "bangumi_api e = Body (JList (it # rest))" and "subscript_key it ''name'' = Inr name"
    using that lk by (simp add: get_bgm_collection_def)
  from g st [of s] lk rq gb show ?thesis
    by (simp add: get_list_fst)
qed

theorem storage_error_propagation_witness:
  "fst (TVDBCache_get (example_env api_two_results bgm_A_B\<lparr>db_accessible := \<lambda>n. False\<rparr>)
     (JStr ''A'') example_state) = Raise Sqlite3Error \<and>
   fst (TVDBCache_set (example_env api_two_results bgm_A_B\<lparr>db_accessible := \<lambda>n. False\<rparr>)
     (JStr ''A'') (JInt 42) example_state) = Raise Sqlite3Error \<and>
   fst (lookup_series_by_name (example_env api_two_results bgm_A_B\<lparr>db_accessible := \<lambda>n. False\<rparr>)
     (JStr ''A'') example_state) = Raise Sqlite3Error \<and>
   fst (lookup_request (example_env api_two_results bgm_A_B\<lparr>db_accessible := \<lambda>n. False\<rparr>)
     (JStr ''A'') example_state) = Raise Sqlite3Error \<and>
   fst (get_list (example_env api_two_results bgm_A_B\<lparr>db_accessible := \<lambda>n. False\<rparr>)
     example_state) = Return \<lparr>status = 200, body = []\<rparr>"
  using storage_error_propagation [of "example_env api_two_results bgm_A_B\<lparr>db_accessible := \<lambda>n. False\<rparr>"
     example_state "JStr ''A''" "JInt 42" "JObj [(''title'', JStr ''A''), (''tvdbId'', JInt 42)]"
     "[JObj [(''tvdbId'', JInt 99)]]" "JObj [(''name'', JStr ''A'')]" "[JObj [(''name'', JStr ''B'')]]"]
  by (simp add: example_defs)

text \<open>
  C9 as stated fails at the collection: the database is out of reach, the first lookup
  raises the storage error, and the request still ends with status 200 and the empty
  list.
\<close>

theorem storage_error_masked_counterexample:
  "\<not> db_accessible (example_env api_two_results bgm_A_B\<lparr>db_accessible := \<lambda>n. False\<rparr>)
      (connects init_db) \<and>
   fst (TVDBCache_get (example_env api_two_results bgm_A_B\<lparr>db_accessible := \<lambda>n. False\<rparr>)
     (JStr ''A'') init_db) = Raise Sqlite3Error \<and>
   fst (get_bgm_collection (example_env api_two_results bgm_A_B\<lparr>db_accessible := \<lambda>n. False\<rparr>)
     init_db) = Return [] \<and>
   fst (get_list (example_env api_two_results bgm_A_B\<lparr>db_accessible := \<lambda>n. False\<rparr>) init_db) =
     Return \<lparr>status = 200, body = []\<rparr>"
  by (simp add: example_defs program_defs)

lemma subscript_0_exn: "subscript_0 p = Inl x \<Longrightarrow> x \<noteq> RequestException"
  by (cases p rule: subscript_0.cases) auto

lemma subscript_key_exn: "subscript_key f k = Inl x \<Longrightarrow> x \<noteq> RequestException"
  by (cases f) (auto split: option.splits)

lemma not_truthy_iff:
  "\<not> truthy p \<longleftrightarrow>
     p = JNull \<or> p = JBool False \<or> p = JInt 0 \<or> p = JStr [] \<or> p = JList [] \<or> p = JObj []"
  by (cases p) auto

lemma lookup_request_malformed:
  assumes "sonarr_api e (length (sonarr_calls s)) n = Body p"
    and "truthy p"
    and "subscript_0 p = Inl x \<or> (\<exists>f. subscript_0 p = Inr f \<and> subscript_key f ''tvdbId'' = Inl x)"
  shows "lookup_request e n s = (Raise x, s\<lparr>sonarr_calls := sonarr_calls s @ [n]\<rparr>)"
    and "x \<noteq> RequestException"
proof -
  from assms(3) show x: "x \<noteq> RequestException"
    using subscript_0_exn subscript_key_exn by blast
  from assms(3) show "lookup_request e n s = (Raise x, s\<lparr>sonarr_calls := sonarr_calls s @ [n]\<rparr>)"
  proof
    assume "subscript_0 p = Inl x"
    with assms(1,2) x show ?thesis
      by (simp add: lookup_request_def sonarr_request_def except_RequestException_def)
  next
    assume "\<exists>f. subscript_0 p = Inr f \<and> subscript_key f ''tvdbId'' = Inl x"
    then obtain f where "subscript_0 p = Inr f" "subscript_key f ''tvdbId'' = Inl x"
      by blast
    with assms(1,2) x show ?thesis
      by (simp add: lookup_request_def sonarr_request_def except_RequestException_def)
  qed
qed

lemma lookup_request_falsy:
  assumes "sonarr_api e (length (sonarr_calls s)) n = Body p" and "\<not> truthy p"
  shows "lookup_request e n s =
     (Return (JInt 0), logger WARNING (s\<lparr>sonarr_calls := sonarr_calls s @ [n]\<rparr>))"
  using assms by (simp add: lookup_request_def sonarr_request_def)

text \<open>
  C10, as the code has it. Let the lookup of an entry reach the request to Sonarr (the
  cache gave \<^verbatim>\<open>None\<close> or 0) and Sonarr answer with a payload. When the payload
  passes the truth test and \<^verbatim>\<open>results[0]['tvdbId']\<close> raises (the first result is no
  object or lacks the field, or the payload is a non-empty object or string, a non-zero
  number or \<^verbatim>\<open>true\<close>), the exception is not a \<^verbatim>\<open>RequestException\<close> and leaves
  \<^verbatim>\<open>lookup_series_by_name\<close>; \<^verbatim>\<open>get_bgm_collection\<close> catches it and returns the
  empty list, with no request for any later entry and the table as the earlier entries
  left it. When the payload fails the truth test, which is the case exactly for
  \<^verbatim>\<open>null\<close>, \<^verbatim>\<open>false\<close>, \<open>0\<close>, the empty string, \<open>[]\<close> and \<^verbatim>\<open>{}\<close>, the lookup
  returns 0, the table is unchanged, and the comprehension goes on with the later
  entries.
\<close>

theorem malformed_lookup_payload_aborts:
  assumes "bangumi_api e = Body (JList (pre @ it # post))"
    and "fst (comprehension e pre s) = Return res"
    and "subscript_key it ''name'' = Inr n"
    and "fst (TVDBCache_get e n (snd (comprehension e pre s))) = Return None \<or>
         fst (TVDBCache_get e n (snd (comprehension e pre s))) = Return (Some 0)"
    and "sonarr_api e (length (sonarr_calls (snd (comprehension e pre s)))) n = Body p"
  shows "(truthy p \<and>
          (subscript_0 p = Inl x \<or>
           (\<exists>f. subscript_0 p = Inr f \<and> subscript_key f ''tvdbId'' = Inl x)) \<longrightarrow>
            fst (lookup_series_by_name e n (snd (comprehension e pre s))) = Raise x \<and>
            x \<noteq> RequestException \<and>
            fst (get_bgm_collection e s) = Return [] \<and>
            sonarr_calls (snd (get_bgm_collection e s)) =
              sonarr_calls (snd (comprehension e pre s)) @ [n] \<and>
            tvdb_cache (snd (get_bgm_collection e s)) = tvdb_cache (snd (comprehension e pre s))) \<and>
         (\<not> truthy p \<longrightarrow>
            fst (lookup_series_by_name e n (snd (comprehension e pre s))) = Return (JInt 0) \<and>
            tvdb_cache (snd (lookup_series_by_name e n (snd (comprehension e pre s)))) =
              tvdb_cache (snd (comprehension e pre s)) \<and>
            comprehension e (pre @ it # post) s =
              (case comprehension e post
                      (snd (lookup_series_by_name e n (snd (comprehension e pre s)))) of
                 (Return its, s2) \<Rightarrow> (Return (res @ \<lparr>title = n, tvdbId = JInt 0\<rparr> # its), s2)
               | (Raise y, s2) \<Rightarrow> (Raise y, s2))) \<and>
         (\<not> truthy p \<longleftrightarrow>
            p = JNull \<or> p = JBool False \<or> p = JInt 0 \<or> p = JStr [] \<or> p = JList [] \<or>
            p = JObj [])"
proof -
  define s1 where "s1 = snd (comprehension e pre s)"
  define s0 where "s0 = snd (TVDBCache_get e n s1)"
  have pre: "comprehension e pre s = (Return res, s1)"
    using assms(2) unfolding s1_def by (cases "comprehension e pre s") simp
  have frame: "sonarr_calls s0 = sonarr_calls s1" "tvdb_cache s0 = tvdb_cache s1"
    unfolding s0_def by (simp_all add: TVDBCache_get_frame)
  have api: "sonarr_api e (length (sonarr_calls s0)) n = Body p"
    using assms(5) unfolding frame s1_def .
  have route: "lookup_series_by_name e n s1 = lookup_request e n s0"
    using lookup_series_by_name_miss [OF assms(4)] unfolding s1_def s0_def .
  have abort: "fst (lookup_series_by_name e n s1) = Raise x \<and>
            x \<noteq> RequestException \<and>
            fst (get_bgm_collection e s) = Return [] \<and>
            sonarr_calls (snd (get_bgm_collection e s)) = sonarr_calls s1 @ [n] \<and>
            tvdb_cache (snd (get_bgm_collection e s)) = tvdb_cache s1"
    if t: "truthy p"
      and bad: "subscript_0 p = Inl x \<or>
        (\<exists>f. subscript_0 p = Inr f \<and> subscript_key f ''tvdbId'' = Inl x)"
  proof -
    have lk: "lookup_series_by_name e n s1 = (Raise x, s0\<lparr>sonarr_calls := sonarr_calls s0 @ [n]\<rparr>)"
      using route lookup_request_malformed(1) [OF api t bad] by simp
    have x: "x \<noteq> RequestException"
      using lookup_request_malformed(2) [OF api t bad] .
    have "comprehension e (it # post) s1 = (Raise x, s0\<lparr>sonarr_calls := sonarr_calls s0 @ [n]\<rparr>)"
      using comprehension_Cons_Raise [OF assms(3) lk] .
    with comprehension_append [OF pre, of "it # post"]
    have "comprehension e (pre @ it # post) s = (Raise x, s0\<lparr>sonarr_calls := sonarr_calls s0 @ [n]\<rparr>)"
      by simp
    with assms(1) have "get_bgm_collection e s =
        (Return [], logger ERROR (s0\<lparr>sonarr_calls := sonarr_calls s0 @ [n]\<rparr>))"
      by (simp add: get_bgm_collection_def)
    with lk x frame show ?thesis
      by (simp add: logger_def)
  qed
  have goes_on: "fst (lookup_series_by_name e n s1) = Return (JInt 0) \<and>
            tvdb_cache (snd (lookup_series_by_name e n s1)) = tvdb_cache s1 \<and>
            comprehension e (pre @ it # post) s =
              (case comprehension e post (snd (lookup_series_by_name e n s1)) of
                 (Return its, s2) \<Rightarrow> (Return (res @ \<lparr>title = n, tvdbId = JInt 0\<rparr> # its), s2)
               | (Raise y, s2) \<Rightarrow> (Raise y, s2))"
    if f: "\<not> truthy p"
  proof -
    define s2 where "s2 = logger WARNING (s0\<lparr>sonarr_calls := sonarr_calls s0 @ [n]\<rparr>)"
    have lk: "lookup_series_by_name e n s1 = (Return (JInt 0), s2)"
      using route lookup_request_falsy [OF api f] unfolding s2_def by simp
    have rows: "tvdb_cache s2 = tvdb_cache s1"
      unfolding s2_def using frame by (simp add: logger_def)
    have "comprehension e (pre @ it # post) s =
        (case comprehension e (it # post) s1 of
           (Return its, s2) \<Rightarrow> (Return (res @ its), s2)
         | (Raise y, s2) \<Rightarrow> (Raise y, s2))"
      by (rule comprehension_append [OF pre])
    also have "\<dots> = (case comprehension e post s2 of
                 (Return its, s3) \<Rightarrow> (Return (res @ \<lparr>title = n, tvdbId = JInt 0\<rparr> # its), s3)
               | (Raise y, s3) \<Rightarrow> (Raise y, s3))"
      unfolding comprehension_Cons_Return [OF assms(3) lk]
      by (simp split: prod.splits outcome.splits)
    finally show ?thesis using lk rows by simp
  qed
  from abort goes_on not_truthy_iff [of p] show ?thesis
    unfolding s1_def by blast
qed

theorem malformed_lookup_payload_aborts_witness:
  "fst (lookup_series_by_name (example_env api_no_id bgm_A_B) (JStr ''A'') init_db) = Raise KeyError \<and>
   fst (get_bgm_collection (example_env api_no_id bgm_A_B) init_db) = Return [] \<and>
   sonarr_calls (snd (get_bgm_collection (example_env api_no_id bgm_A_B) init_db)) = [JStr ''A''] \<and>
   fst (lookup_series_by_name (example_env api_error_object bgm_A_B) (JStr ''A'') init_db) =
     Raise KeyError \<and>
   fst (get_bgm_collection (example_env api_error_object bgm_A_B) init_db) = Return [] \<and>
   fst (lookup_series_by_name (example_env api_empty_object_for_A bgm_A_B) (JStr ''A'') init_db) =
     Return (JInt 0)"
proof -
  let ?e1 = "example_env api_no_id bgm_A_B"
  let ?e2 = "example_env api_error_object bgm_A_B"
  let ?e3 = "example_env api_empty_object_for_A bgm_A_B"
  have bgm: "bangumi_api (example_env api bgm_A_B) =
      Body (JList ([] @ JObj [(''name'', JStr ''A'')] # [JObj [(''name'', JStr ''B'')]]))" for api
    by (simp add: example_defs)
  have pre: "fst (comprehension e [] init_db) = Return []" for e
    by simp
  have name: "subscript_key (JObj [(''name'', JStr ''A'')]) ''name'' = Inr (JStr ''A'')"
    by simp
  have miss: "fst (TVDBCache_get (example_env api bgm_A_B) (JStr ''A'')
        (snd (comprehension (example_env api bgm_A_B) [] init_db))) = Return None \<or>
      fst (TVDBCache_get (example_env api bgm_A_B) (JStr ''A'')
        (snd (comprehension (example_env api bgm_A_B) [] init_db))) = Return (Some 0)" for api
    by (simp add: example_defs program_defs)
  have api1: "sonarr_api ?e1 (length (sonarr_calls (snd (comprehension ?e1 [] init_db)))) (JStr ''A'') =
      Body (JList [JObj [(''title'', JStr ''A'')]])"
    by (simp add: example_defs)
  have bad1: "truthy (JList [JObj [(''title'', JStr ''A'')]]) \<and>
     (subscript_0 (JList [JObj [(''title'', JStr ''A'')]]) = Inl KeyError \<or>
      (\<exists>f. subscript_0 (JList [JObj [(''title'', JStr ''A'')]]) = Inr f \<and>
         subscript_key f ''tvdbId'' = Inl KeyError))"
    by simp
  have api2: "sonarr_api ?e2 (length (sonarr_calls (snd (comprehension ?e2 [] init_db)))) (JStr ''A'') =
      Body (JObj [(''error'', JStr ''Unauthorized'')])"
    by (simp add: example_defs)
  have bad2: "truthy (JObj [(''error'', JStr ''Unauthorized'')]) \<and>
     (subscript_0 (JObj [(''error'', JStr ''Unauthorized'')]) = Inl KeyError \<or>
      (\<exists>f. subscript_0 (JObj [(''error'', JStr ''Unauthorized'')]) = Inr f \<and>
         subscript_key f ''tvdbId'' = Inl KeyError))"
    by simp
  have api3: "sonarr_api ?e3 (length (sonarr_calls (snd (comprehension ?e3 [] init_db)))) (JStr ''A'') =
      Body (JObj [])"
    by (simp add: example_defs)
  have falsy: "\<not> truthy (JObj [])"
    by simp
  from malformed_lookup_payload_aborts [OF bgm pre name miss api1, THEN conjunct1, THEN mp, OF bad1]
    malformed_lookup_payload_aborts [OF bgm pre name miss api2, THEN conjunct1, THEN mp, OF bad2]
    malformed_lookup_payload_aborts [OF bgm pre name miss api3, THEN conjunct2, THEN conjunct1,
      THEN mp, OF falsy]
  show ?thesis by (simp add: init_db_def)
qed

text \<open>
  C10 as stated fails for a payload that is not a list and fails the truth test: Sonarr
  answers \<^verbatim>\<open>{}\<close> for the first entry, which is handled as an empty result, so the
  entry gets \<^verbatim>\<open>tvdbId\<close> 0 and the second entry is looked up as usual.
\<close>

theorem falsy_payload_counterexample:
  "sonarr_api (example_env api_empty_object_for_A bgm_A_B) 0 (JStr ''A'') = Body (JObj []) \<and>
   fst (lookup_series_by_name (example_env api_empty_object_for_A bgm_A_B) (JStr ''A'') init_db) =
     Return (JInt 0) \<and>
   fst (get_bgm_collection (example_env api_empty_object_for_A bgm_A_B) init_db) =
     Return [\<lparr>title = JStr ''A'', tvdbId = JInt 0\<rparr>, \<lparr>title = JStr ''B'', tvdbId = JInt 5\<rparr>] \<and>
   sonarr_calls (snd (get_bgm_collection (example_env api_empty_object_for_A bgm_A_B) init_db)) =
     [JStr ''A'', JStr ''B'']"
  by (simp add: example_defs program_defs)

end
